theory Spec2Isabelle
  imports Complex_Main
begin

section \<open>Edge service (src/edge/app.py)\<close>

text \<open>
  Clock readings (\<^verbatim>\<open>time.time()\<close>) and samples of the random generator are inputs of the
  operations that read them. The Python values are double-precision floats, which are
  particular real numbers, and they are modelled as real numbers. The sum that \<^verbatim>\<open>mark_seen\<close>
  stores is rounded to a double as the float addition of Python rounds it.
\<close>

subsection \<open>Double-precision arithmetic\<close>

text \<open>
  A Python float is an IEEE 754 binary64 number: a finite double is \<open>m * 2 ^ e\<close> with an
  integer \<open>m\<close> of magnitude below \<open>2 ^ 53\<close> and \<open>e \<ge> - 1074\<close>. An arithmetic operation
  returns the exact result rounded to the nearest double, a tie going to the even \<open>m\<close>.
\<close>

definition pow2 :: "int \<Rightarrow> real" where
  "pow2 attempt = (if 0 \<le> attempt then 2 ^ nat attempt else 1 / 2 ^ nat (- attempt))"

definition round_half_even :: "real \<Rightarrow> int" where
  "round_half_even y =
     (let f = \<lfloor>y\<rfloor>; d = y - real_of_int f
      in if d < 1 / 2 then f else if 1 / 2 < d then f + 1
         else if even f then f else f + 1)"

text \<open>
  The exponent \<open>e\<close> with \<open>2 ^ e \<le> \<bar>x\<bar> < 2 ^ (e + 1)\<close>, found by halving or doubling. It
  stops at \<open>- 1022\<close>, below which the doubles are equally spaced (the subnormal numbers),
  and at \<open>1024\<close>, from where on there is no finite double.
\<close>

function binade_up :: "real \<Rightarrow> int \<Rightarrow> int" where
  "binade_up y e = (if 2 \<le> y \<and> e < 1024 then binade_up (y / 2) (e + 1) else e)"
  by pat_completeness auto
termination
  by (relation "measure (\<lambda>(y, e). nat (1024 - e))") auto

function binade_down :: "real \<Rightarrow> int \<Rightarrow> int" where
  "binade_down y e = (if y < 1 \<and> - 1022 < e then binade_down (y * 2) (e - 1) else e)"
  by pat_completeness auto
termination
  by (relation "measure (\<lambda>(y, e). nat (e + 1022))") auto

declare binade_up.simps [simp del] binade_down.simps [simp del]

definition binade :: "real \<Rightarrow> int" where
  "binade x = (if 1 \<le> \<bar>x\<bar> then binade_up \<bar>x\<bar> 0 else binade_down \<bar>x\<bar> 0)"

text \<open>
  Rounding to a double: the doubles around \<open>x\<close> are the multiples of \<open>2 ^ (binade x - 52)\<close>.
  A result of magnitude \<open>2 ^ 1024\<close> or more stands for the infinite double of its sign: like
  the infinity, it lies beyond every finite double.
\<close>

definition double_round :: "real \<Rightarrow> real" where
  "double_round x =
     (let q = pow2 (binade x - 52) in real_of_int (round_half_even (x / q)) * q)"

text \<open>\<^verbatim>\<open>a + b\<close> on two floats.\<close>

definition float_add :: "real \<Rightarrow> real \<Rightarrow> real" where
  "float_add a b = double_round (a + b)"

text \<open>
  The conversion of an \<^verbatim>\<open>int\<close> operand to a float, which an operation on a float and an
  \<^verbatim>\<open>int\<close> does first, for an \<^verbatim>\<open>int\<close> within the range of the doubles.
\<close>

definition float_of_int :: "int \<Rightarrow> real" where
  "float_of_int i = double_round (real_of_int i)"

subsection \<open>Models\<close>

record TelemetryMessage =
  device_id :: string
  sequence_id :: int
  timestamp :: string
  temperature :: "real option"
  humidity :: "real option"
  pressure :: "real option"

record IngestResponse =
  status :: string
  message :: string
  correlation_id :: string

datatype http_exception = HTTPException (status_code: int) (detail: string)

subsection \<open>Decimal rendering of an integer, as the f-string does\<close>

definition digit_char :: "nat \<Rightarrow> char" where
  "digit_char n = char_of (48 + n)"

function str_nat :: "nat \<Rightarrow> string" where
  "str_nat n = (if n < 10 then [digit_char n] else str_nat (n div 10) @ [digit_char (n mod 10)])"
  by pat_completeness auto
termination
  by (relation "measure (\<lambda>n. n)") auto

declare str_nat.simps [simp del]

definition str_int :: "int \<Rightarrow> string" where
  "str_int i = (if i < 0 then CHR ''-'' # str_nat (nat (- i)) else str_nat (nat i))"

subsection \<open>In-memory cache for idempotency\<close>

record MessageCache =
  cache :: "string \<rightharpoonup> real"  \<comment> \<open>key -> expiry timestamp\<close>
  ttl_seconds :: int

definition MessageCache_init :: "int \<Rightarrow> MessageCache" where
  "MessageCache_init ttl = \<lparr>cache = Map.empty, ttl_seconds = ttl\<rparr>"

definition cache_key :: "string \<Rightarrow> int \<Rightarrow> string" where
  "cache_key d s = d @ '':'' @ str_int s"

text \<open>\<^verbatim>\<open>_cleanup\<close>: \<open>now\<close> is the value \<^verbatim>\<open>time.time()\<close> returns in the call.\<close>

definition cleanup :: "MessageCache \<Rightarrow> real \<Rightarrow> MessageCache" where
  "cleanup mc now =
     mc\<lparr>cache := (\<lambda>k. case cache mc k of
                            None \<Rightarrow> None
                          | Some v \<Rightarrow> if v < now then None else Some v)\<rparr>"

definition has_seen :: "MessageCache \<Rightarrow> string \<Rightarrow> int \<Rightarrow> real \<Rightarrow> bool \<times> MessageCache" where
  "has_seen mc d s now =
     (let mc' = cleanup mc now;
          key = cache_key d s
      in (key \<in> dom (cache mc'), mc'))"

text \<open>
  \<^verbatim>\<open>mark_seen\<close>: the expiry stored is the float \<^verbatim>\<open>time.time() + self.ttl_seconds\<close>, the sum
  of the clock reading \<open>now\<close> and the TTL rounded to a double.
\<close>

definition mark_seen :: "MessageCache \<Rightarrow> string \<Rightarrow> int \<Rightarrow> real \<Rightarrow> MessageCache" where
  "mark_seen mc d s now =
     (let key = cache_key d s
      in mc\<lparr>cache := (cache mc)(key \<mapsto> float_add now (float_of_int (ttl_seconds mc)))\<rparr>)"

subsection \<open>Metrics\<close>

record Metrics =
  received_total :: int
  accepted_total :: int
  duplicates_total :: int
  rejected_total :: int
  transient_503_total :: int

definition Metrics_init :: Metrics where
  "Metrics_init = \<lparr>received_total = 0, accepted_total = 0, duplicates_total = 0,
                    rejected_total = 0, transient_503_total = 0\<rparr>"

subsection \<open>App state and the ingest endpoint\<close>

text \<open>The module-level objects \<^verbatim>\<open>message_cache\<close> and \<^verbatim>\<open>metrics\<close>.\<close>

record app_state =
  message_cache :: MessageCache
  metrics :: Metrics

definition app_init :: app_state where
  "app_init = \<lparr>message_cache = MessageCache_init 300, metrics = Metrics_init\<rparr>"

definition OVERLOAD_PROBABILITY :: real where
  "OVERLOAD_PROBABILITY = 1 / 10"

text \<open>
  What one request reads from outside the program: the fresh \<^verbatim>\<open>uuid.uuid4()\<close>, the
  \<^verbatim>\<open>random.random()\<close> sample of the overload gate, and the two clock readings, the one of
  \<^verbatim>\<open>_cleanup\<close> inside \<^verbatim>\<open>has_seen\<close> and the one of \<^verbatim>\<open>mark_seen\<close>. A reading is only
  used on the path that makes the call.
\<close>

record request_env =
  uuid4 :: string
  overload_sample :: real
  t_cleanup :: real
  t_mark :: real

text \<open>
  \<^verbatim>\<open>ingest_telemetry\<close>, lines 156 to 209: the counters, the overload gate, the validation
  gate and the idempotency check. \<open>Some e\<close> is the \<^verbatim>\<open>HTTPException\<close> raised there;
  \<open>None\<close> means that control reaches the accept block. \<^verbatim>\<open>log_event\<close> only prints and is
  left out.
\<close>

definition ingest_telemetry_check ::
  "app_state \<Rightarrow> TelemetryMessage \<Rightarrow> request_env \<Rightarrow> http_exception option \<times> app_state" where
  "ingest_telemetry_check st msg env =
     (let st1 = st\<lparr>metrics := (metrics st)\<lparr>received_total := received_total (metrics st) + 1\<rparr>\<rparr>
      in if overload_sample env < OVERLOAD_PROBABILITY then
           (Some (HTTPException 503 ''Service temporarily overloaded''),
            st1\<lparr>metrics := (metrics st1)\<lparr>transient_503_total := transient_503_total (metrics st1) + 1\<rparr>\<rparr>)
         else if sequence_id msg < 0 then
           (Some (HTTPException 400 ''sequence_id must be >= 0''),
            st1\<lparr>metrics := (metrics st1)\<lparr>rejected_total := rejected_total (metrics st1) + 1\<rparr>\<rparr>)
         else
           (case has_seen (message_cache st1) (device_id msg) (sequence_id msg) (t_cleanup env) of
              (seen, mc) \<Rightarrow>
                let st2 = st1\<lparr>message_cache := mc\<rparr>
                in if seen then
                     (Some (HTTPException 409 ''Duplicate message''),
                      st2\<lparr>metrics := (metrics st2)\<lparr>duplicates_total := duplicates_total (metrics st2) + 1\<rparr>\<rparr>)
                   else (None, st2)))"

text \<open>\<^verbatim>\<open>ingest_telemetry\<close>, lines 211 to 229: the accept block.\<close>

definition ingest_telemetry_accept ::
  "app_state \<Rightarrow> TelemetryMessage \<Rightarrow> request_env \<Rightarrow> IngestResponse \<times> app_state" where
  "ingest_telemetry_accept st msg env =
     (let st1 = st\<lparr>message_cache :=
                      mark_seen (message_cache st) (device_id msg) (sequence_id msg) (t_mark env)\<rparr>;
          st2 = st1\<lparr>metrics := (metrics st1)\<lparr>accepted_total := accepted_total (metrics st1) + 1\<rparr>\<rparr>
      in (\<lparr>status = ''accepted'', message = ''Telemetry ingested successfully'',
           correlation_id = uuid4 env\<rparr>, st2))"

text \<open>The whole handler, run without interruption: \<open>Inl\<close> is the raised exception.\<close>

definition ingest_telemetry ::
  "app_state \<Rightarrow> TelemetryMessage \<Rightarrow> request_env \<Rightarrow> (http_exception + IngestResponse) \<times> app_state" where
  "ingest_telemetry st msg env =
     (case ingest_telemetry_check st msg env of
        (Some e, st') \<Rightarrow> (Inl e, st')
      | (None, st') \<Rightarrow>
          (case ingest_telemetry_accept st' msg env of (r, st'') \<Rightarrow> (Inr r, st'')))"

text \<open>The cache key of a message.\<close>

definition msg_key :: "TelemetryMessage \<Rightarrow> string" where
  "msg_key msg = cache_key (device_id msg) (sequence_id msg)"

text \<open>The four outcomes of the endpoint, read off its result.\<close>

definition is_accepted :: "http_exception + IngestResponse \<Rightarrow> bool" where
  "is_accepted r = (case r of Inr resp \<Rightarrow> status resp = ''accepted'' | Inl _ \<Rightarrow> False)"

definition is_duplicate :: "http_exception + IngestResponse \<Rightarrow> bool" where
  "is_duplicate r = (case r of Inl e \<Rightarrow> status_code e = 409 | Inr _ \<Rightarrow> False)"

definition is_rejected :: "http_exception + IngestResponse \<Rightarrow> bool" where
  "is_rejected r = (case r of Inl e \<Rightarrow> status_code e = 400 | Inr _ \<Rightarrow> False)"

definition is_overloaded :: "http_exception + IngestResponse \<Rightarrow> bool" where
  "is_overloaded r = (case r of Inl e \<Rightarrow> status_code e = 503 | Inr _ \<Rightarrow> False)"

text \<open>Requests handled one after the other, each to completion.\<close>

fun ingest_run ::
  "app_state \<Rightarrow> (TelemetryMessage \<times> request_env) list \<Rightarrow>
   (http_exception + IngestResponse) list \<times> app_state" where
  "ingest_run st [] = ([], st)"
| "ingest_run st ((msg, env) # reqs) =
     (case ingest_telemetry st msg env of
        (r, st') \<Rightarrow> (case ingest_run st' reqs of (rs, st'') \<Rightarrow> (r # rs, st'')))"

subsection \<open>Requests served by concurrent workers\<close>

text \<open>
  The handler is a plain \<^verbatim>\<open>def\<close> and takes no lock, so the server's worker threads may
  switch between the idempotency check of one request and its accept block. A worker is a
  request together with its progress; a schedule names the worker that runs next, and each
  turn runs one of the two blocks of \<^verbatim>\<open>ingest_telemetry\<close>.
\<close>

datatype progress =
    Arrived
  | Checked
  | Finished "http_exception + IngestResponse"

record worker =
  w_msg :: TelemetryMessage
  w_env :: request_env
  w_progress :: progress

definition worker_turn :: "app_state \<Rightarrow> worker \<Rightarrow> app_state \<times> worker" where
  "worker_turn st w =
     (case w_progress w of
        Arrived \<Rightarrow>
          (case ingest_telemetry_check st (w_msg w) (w_env w) of
             (Some e, st') \<Rightarrow> (st', w\<lparr>w_progress := Finished (Inl e)\<rparr>)
           | (None, st') \<Rightarrow> (st', w\<lparr>w_progress := Checked\<rparr>))
      | Checked \<Rightarrow>
          (case ingest_telemetry_accept st (w_msg w) (w_env w) of
             (r, st') \<Rightarrow> (st', w\<lparr>w_progress := Finished (Inr r)\<rparr>))
      | Finished r \<Rightarrow> (st, w))"

fun run_schedule :: "app_state \<Rightarrow> worker list \<Rightarrow> nat list \<Rightarrow> app_state \<times> worker list" where
  "run_schedule st ws [] = (st, ws)"
| "run_schedule st ws (i # sched) =
     (if i < length ws then
        (case worker_turn st (ws ! i) of (st', w') \<Rightarrow> run_schedule st' (ws[i := w']) sched)
      else run_schedule st ws sched)"

subsection \<open>Sequences of cache operations\<close>

text \<open>A call of one of the two public methods, with the clock reading it gets.\<close>

datatype cache_op =
    HasSeen string int real
  | MarkSeen string int real

fun op_time :: "cache_op \<Rightarrow> real" where
  "op_time (HasSeen d s t) = t"
| "op_time (MarkSeen d s t) = t"

fun op_key :: "cache_op \<Rightarrow> string" where
  "op_key (HasSeen d s t) = cache_key d s"
| "op_key (MarkSeen d s t) = cache_key d s"

fun is_MarkSeen :: "cache_op \<Rightarrow> bool" where
  "is_MarkSeen (MarkSeen d s t) = True"
| "is_MarkSeen (HasSeen d s t) = False"

fun apply_cache_op :: "MessageCache \<Rightarrow> cache_op \<Rightarrow> MessageCache" where
  "apply_cache_op mc (HasSeen d s t) = snd (has_seen mc d s t)"
| "apply_cache_op mc (MarkSeen d s t) = mark_seen mc d s t"

definition apply_cache_ops :: "MessageCache \<Rightarrow> cache_op list \<Rightarrow> MessageCache" where
  "apply_cache_ops mc ops = foldl apply_cache_op mc ops"

text \<open>
  Requests that have all arrived, none of them started; the schedule that hands each
  worker both of its turns back to back, in the order of arrival; and the outcomes reached.
\<close>

definition arrive :: "(TelemetryMessage \<times> request_env) list \<Rightarrow> worker list" where
  "arrive reqs = map (\<lambda>(msg, env). \<lparr>w_msg = msg, w_env = env, w_progress = Arrived\<rparr>) reqs"

definition sequential_schedule :: "nat \<Rightarrow> nat \<Rightarrow> nat list" where
  "sequential_schedule first n = concat (map (\<lambda>i. [i, i]) [first..<first + n])"

definition accepted_count :: "worker list \<Rightarrow> nat" where
  "accepted_count ws =
     length (filter (\<lambda>w. case w_progress w of Finished r \<Rightarrow> is_accepted r | _ \<Rightarrow> False) ws)"

definition duplicate_count :: "worker list \<Rightarrow> nat" where
  "duplicate_count ws =
     length (filter (\<lambda>w. case w_progress w of Finished r \<Rightarrow> is_duplicate r | _ \<Rightarrow> False) ws)"

subsection \<open>Example inputs\<close>

definition example_message :: "string \<Rightarrow> int \<Rightarrow> TelemetryMessage" where
  "example_message d s =
     \<lparr>device_id = d, sequence_id = s, timestamp = ''2025-01-01T00:00:00Z'',
      temperature = Some 21, humidity = Some 40, pressure = Some 1000\<rparr>"

text \<open>A request on which the overload gate does not fire, with both clock readings \<open>t\<close>.\<close>

definition example_request :: "real \<Rightarrow> request_env" where
  "example_request t =
     \<lparr>uuid4 = ''c0ffee00-0000-4000-8000-000000000000'', overload_sample = 1 / 2,
      t_cleanup = t, t_mark = t\<rparr>"

section \<open>Simulated device (src/device/simulated_device.py)\<close>

subsection \<open>Configuration\<close>

definition DEVICE_ID :: string where
  "DEVICE_ID = ''device-001''"

definition TELEMETRY_INTERVAL_SECONDS :: real where
  "TELEMETRY_INTERVAL_SECONDS = 3"

definition PACKET_DROP_PROBABILITY :: real where
  "PACKET_DROP_PROBABILITY = 15 / 100"

definition JITTER_PROBABILITY :: real where
  "JITTER_PROBABILITY = 20 / 100"

definition MAX_JITTER_SECONDS :: real where
  "MAX_JITTER_SECONDS = 2"

definition DUPLICATE_PROBABILITY :: real where
  "DUPLICATE_PROBABILITY = 10 / 100"

definition MAX_RETRIES :: nat where
  "MAX_RETRIES = 5"

definition BASE_BACKOFF_SECONDS :: real where
  "BASE_BACKOFF_SECONDS = 1"

definition MAX_BACKOFF_SECONDS :: real where
  "MAX_BACKOFF_SECONDS = 30"

definition BACKOFF_JITTER_RANGE :: real where
  "BACKOFF_JITTER_RANGE = 1 / 2"

subsection \<open>The outside world of the device\<close>

text \<open>
  The exceptions the retry loop tells apart. \<open>ConnectTimeout\<close> is a subclass of both
  \<^verbatim>\<open>requests.exceptions.Timeout\<close> and \<^verbatim>\<open>requests.exceptions.ConnectionError\<close>;
  \<open>OverflowError\<close> is what Python raises when an \<^verbatim>\<open>int\<close> too large for a float is
  converted to one; \<open>OtherException\<close> is any other instance of \<^verbatim>\<open>Exception\<close>.
  \<open>KeyboardInterrupt\<close> and \<open>SystemExit\<close> are instances of \<^verbatim>\<open>BaseException\<close> only:
  \<^verbatim>\<open>except Exception\<close> does not catch them.
\<close>

datatype exn =
    Timeout
  | ConnectTimeout
  | ConnectionError
  | OtherException
  | OverflowError
  | KeyboardInterrupt
  | SystemExit

text \<open>\<^verbatim>\<open>isinstance(e, Exception)\<close>.\<close>

fun is_Exception :: "exn \<Rightarrow> bool" where
  "is_Exception KeyboardInterrupt = False"
| "is_Exception SystemExit = False"
| "is_Exception _ = True"

text \<open>
  What \<^verbatim>\<open>response.json()\<close> does with the body of a response: it returns a JSON object
  (a \<^verbatim>\<open>dict\<close>, which has \<^verbatim>\<open>get\<close>), returns another JSON value (which has no
  \<^verbatim>\<open>get\<close>), or raises because the body is not JSON.
\<close>

datatype body = JsonObject | JsonNotObject | InvalidJson

datatype transport_result =
    Response (resp_status_code: int) (resp_body: body)
  | Raises exn

record telemetry =
  t_device_id :: string
  t_sequence_id :: int
  t_timestamp :: string
  t_temperature :: real
  t_humidity :: real
  t_pressure :: real

text \<open>
  The collaborators: \<open>rnd n\<close> is the value of the \<open>n\<close>-th call of \<^verbatim>\<open>random.random()\<close>,
  \<open>net n\<close> the result of the \<open>n\<close>-th call of \<^verbatim>\<open>requests.post\<close>, and \<open>utcnow s\<close> the
  timestamp \<^verbatim>\<open>generate_telemetry\<close> reads for sequence number \<open>s\<close>.
\<close>

record device_env =
  rnd :: "nat \<Rightarrow> real"
  net :: "nat \<Rightarrow> transport_result"
  utcnow :: "int \<Rightarrow> string"

text \<open>What the device does to the world, in order.\<close>

datatype event =
    PacketDropDecision bool
  | JitterDecision bool
  | DuplicateDecision bool
  | Sleep real
  | Post telemetry

record world =
  rand_calls :: nat
  post_calls :: nat
  trace :: "event list"

definition world_init :: world where
  "world_init = \<lparr>rand_calls = 0, post_calls = 0, trace = []\<rparr>"

definition random_random :: "device_env \<Rightarrow> world \<Rightarrow> real \<times> world" where
  "random_random env w = (rnd env (rand_calls w), w\<lparr>rand_calls := rand_calls w + 1\<rparr>)"

text \<open>\<^verbatim>\<open>random.uniform(a, b)\<close> is \<^verbatim>\<open>a + (b - a) * self.random()\<close>.\<close>

definition random_uniform :: "real \<Rightarrow> real \<Rightarrow> device_env \<Rightarrow> world \<Rightarrow> real \<times> world" where
  "random_uniform a b env w =
     (case random_random env w of (r, w') \<Rightarrow> (a + (b - a) * r, w'))"

definition time_sleep :: "real \<Rightarrow> world \<Rightarrow> world" where
  "time_sleep d w = w\<lparr>trace := trace w @ [Sleep d]\<rparr>"

definition emit :: "event \<Rightarrow> world \<Rightarrow> world" where
  "emit e w = w\<lparr>trace := trace w @ [e]\<rparr>"

definition requests_post :: "device_env \<Rightarrow> telemetry \<Rightarrow> world \<Rightarrow> transport_result \<times> world" where
  "requests_post env t w =
     (net env (post_calls w), w\<lparr>post_calls := post_calls w + 1, trace := trace w @ [Post t]\<rparr>)"

subsection \<open>Telemetry generation\<close>

text \<open>\<^verbatim>\<open>round(x, 2)\<close>: to the nearest multiple of 1/100, a tie to the even one.\<close>

definition round2 :: "real \<Rightarrow> real" where
  "round2 x =
     (let y = x * 100; f = \<lfloor>y\<rfloor>; d = y - real_of_int f
      in real_of_int (if d < 1 / 2 then f else if 1 / 2 < d then f + 1
                      else if even f then f else f + 1) / 100)"

definition generate_telemetry :: "device_env \<Rightarrow> int \<Rightarrow> world \<Rightarrow> telemetry \<times> world" where
  "generate_telemetry env seq_id w =
     (case random_uniform 18 28 env w of
        (temp, w1) \<Rightarrow>
          (case random_uniform 30 70 env w1 of
             (hum, w2) \<Rightarrow>
               (case random_uniform 980 1020 env w2 of
                  (pres, w3) \<Rightarrow>
                    (\<lparr>t_device_id = DEVICE_ID, t_sequence_id = seq_id,
                      t_timestamp = utcnow env seq_id,
                      t_temperature = round2 temp, t_humidity = round2 hum,
                      t_pressure = round2 pres\<rparr>, w3))))"

subsection \<open>Network instability simulation\<close>

definition simulate_packet_drop :: "device_env \<Rightarrow> world \<Rightarrow> bool \<times> world" where
  "simulate_packet_drop env w =
     (case random_random env w of (r, w') \<Rightarrow>
        if r < PACKET_DROP_PROBABILITY then (True, emit (PacketDropDecision True) w')
        else (False, emit (PacketDropDecision False) w'))"

definition simulate_jitter :: "device_env \<Rightarrow> world \<Rightarrow> world" where
  "simulate_jitter env w =
     (case random_random env w of (r, w') \<Rightarrow>
        if r < JITTER_PROBABILITY then
          (case random_uniform (1 / 10) MAX_JITTER_SECONDS env (emit (JitterDecision True) w') of
             (delay, w'') \<Rightarrow> time_sleep delay w'')
        else emit (JitterDecision False) w')"

definition simulate_duplicate :: "device_env \<Rightarrow> world \<Rightarrow> bool \<times> world" where
  "simulate_duplicate env w =
     (case random_random env w of (r, w') \<Rightarrow>
        if r < DUPLICATE_PROBABILITY then (True, emit (DuplicateDecision True) w')
        else (False, emit (DuplicateDecision False) w'))"

subsection \<open>Retry logic with exponential backoff\<close>

text \<open>
  \<^verbatim>\<open>BASE_BACKOFF_SECONDS * (2 ** attempt)\<close>: for \<open>attempt \<ge> 0\<close> the power is an \<^verbatim>\<open>int\<close>
  and the product converts it to a float, which raises \<^verbatim>\<open>OverflowError\<close> from
  \<open>2 ^ 1024\<close> on; nothing has been sampled then. For \<open>attempt < 0\<close> the power is already a
  float. \<open>pow2 attempt\<close> is the power; the arithmetic on the delay is not rounded.
\<close>

definition calculate_backoff :: "int \<Rightarrow> device_env \<Rightarrow> world \<Rightarrow> (exn + real) \<times> world" where
  "calculate_backoff attempt env w =
     (if 1024 \<le> attempt then (Inl OverflowError, w)
      else
        let backoff = min (BASE_BACKOFF_SECONDS * pow2 attempt) MAX_BACKOFF_SECONDS
        in case random_uniform (- BACKOFF_JITTER_RANGE) BACKOFF_JITTER_RANGE env w of
             (u, w') \<Rightarrow>
               let jitter = backoff * u
               in (Inr (max (1 / 10) (backoff + jitter)), w'))"

text \<open>
  The delay \<^verbatim>\<open>calculate_backoff\<close> returns when no exception is raised and
  \<^verbatim>\<open>random.random()\<close> yields \<open>r\<close>.
\<close>

definition backoff_delay :: "int \<Rightarrow> real \<Rightarrow> real" where
  "backoff_delay attempt r =
     (let backoff = min (BASE_BACKOFF_SECONDS * pow2 attempt) MAX_BACKOFF_SECONDS;
          u = - BACKOFF_JITTER_RANGE + (BACKOFF_JITTER_RANGE - - BACKOFF_JITTER_RANGE) * r
      in max (1 / 10) (backoff + backoff * u))"

definition is_transient_error :: "int option \<Rightarrow> exn option \<Rightarrow> bool" where
  "is_transient_error code exception =
     (case exception of
        Some e \<Rightarrow> if e \<in> {Timeout, ConnectTimeout, ConnectionError} then True else False
      | None \<Rightarrow>
          (case code of
             None \<Rightarrow> False
           | Some c \<Rightarrow>
               if c \<noteq> 0 then
                 (if c \<in> {429, 503, 504} then True
                  else if c \<in> {400, 401, 403, 409} then False
                  else False)
               else False))"

text \<open>
  The transient branches: \<^verbatim>\<open>if attempt < MAX_RETRIES\<close> sleeps for the backoff and goes on
  with the next attempt, otherwise the loop returns \<^verbatim>\<open>False\<close>. \<open>in_try\<close> tells whether the
  branch is inside the \<^verbatim>\<open>try\<close> block, where \<^verbatim>\<open>except Exception\<close> turns an exception of
  \<^verbatim>\<open>calculate_backoff\<close> into \<^verbatim>\<open>False\<close>, or inside a handler, where it propagates.
  \<open>Inr None\<close> stands for \<^verbatim>\<open>continue\<close>.
\<close>

definition backoff_or_give_up ::
  "bool \<Rightarrow> device_env \<Rightarrow> nat \<Rightarrow> world \<Rightarrow> (exn + bool option) \<times> world" where
  "backoff_or_give_up in_try env attempt w =
     (if attempt < MAX_RETRIES then
        (case calculate_backoff (int attempt) env w of
           (Inl e, w') \<Rightarrow> if in_try then (Inr (Some False), w') else (Inl e, w')
         | (Inr backoff, w') \<Rightarrow> (Inr None, time_sleep backoff w'))
      else (Inr (Some False), w))"

text \<open>
  One pass through the body of the \<^verbatim>\<open>for\<close> loop of \<^verbatim>\<open>send_with_retry\<close>. The handlers
  are tried in the order of the source: \<^verbatim>\<open>Timeout\<close>, \<^verbatim>\<open>ConnectionError\<close>, \<^verbatim>\<open>Exception\<close>;
  an exception that none of them catches leaves the function.
\<close>

definition send_attempt ::
  "device_env \<Rightarrow> telemetry \<Rightarrow> nat \<Rightarrow> world \<Rightarrow> (exn + bool option) \<times> world" where
  "send_attempt env t attempt w =
     (case requests_post env t w of
        (Response sc b, w1) \<Rightarrow>
          if sc = 200 then
            (case b of JsonObject \<Rightarrow> (Inr (Some True), w1)
                     | _ \<Rightarrow> (Inr (Some False), w1))
          else if sc = 409 then (Inr (Some True), w1)
          else if is_transient_error (Some sc) None then backoff_or_give_up True env attempt w1
          else (Inr (Some False), w1)
      | (Raises e, w1) \<Rightarrow>
          if e \<in> {Timeout, ConnectTimeout} then backoff_or_give_up False env attempt w1
          else if e = ConnectionError then backoff_or_give_up False env attempt w1
          else if is_Exception e then (Inr (Some False), w1)
          else (Inl e, w1))"

text \<open>
  The loop \<^verbatim>\<open>for attempt in range(MAX_RETRIES + 1)\<close>, from \<open>attempt\<close> on; the
  \<^verbatim>\<open>return False\<close> after the loop is the first branch. \<open>Inl\<close> is an exception that leaves
  \<^verbatim>\<open>send_with_retry\<close>.
\<close>

function send_loop :: "device_env \<Rightarrow> telemetry \<Rightarrow> nat \<Rightarrow> world \<Rightarrow> (exn + bool) \<times> world" where
  "send_loop env t attempt w =
     (if MAX_RETRIES + 1 \<le> attempt then (Inr False, w)
      else
        (case send_attempt env t attempt w of
           (Inl e, w') \<Rightarrow> (Inl e, w')
         | (Inr (Some r), w') \<Rightarrow> (Inr r, w')
         | (Inr None, w') \<Rightarrow> send_loop env t (attempt + 1) w'))"
  by pat_completeness auto
termination
  by (relation "measure (\<lambda>(env, t, attempt, w). MAX_RETRIES + 1 - attempt)") auto

declare send_loop.simps [simp del]

definition send_with_retry :: "device_env \<Rightarrow> telemetry \<Rightarrow> world \<Rightarrow> (exn + bool) \<times> world" where
  "send_with_retry env t w = send_loop env t 0 w"

subsection \<open>Main loop\<close>

text \<open>
  One pass through the body of \<^verbatim>\<open>while True\<close>: the result is the next value of
  \<^verbatim>\<open>sequence_id\<close>, or the exception that leaves \<^verbatim>\<open>main\<close>. The value \<^verbatim>\<open>send_with_retry\<close>
  returns is not bound to anything in \<^verbatim>\<open>main\<close>.
\<close>

definition main_cycle :: "device_env \<Rightarrow> int \<Rightarrow> world \<Rightarrow> (exn + int) \<times> world" where
  "main_cycle env seq_id w =
     (case generate_telemetry env seq_id w of
        (t, w0) \<Rightarrow>
          (case simulate_packet_drop env w0 of
             (dropped, w1) \<Rightarrow>
               if dropped then (Inr (seq_id + 1), time_sleep TELEMETRY_INTERVAL_SECONDS w1)
               else
                 (case send_with_retry env t (simulate_jitter env w1) of
                    (Inl e, w3) \<Rightarrow> (Inl e, w3)
                  | (Inr _, w3) \<Rightarrow>
                      (case simulate_duplicate env w3 of
                         (dup, w4) \<Rightarrow>
                           if dup then
                             (case send_with_retry env t (time_sleep (1 / 2) w4) of
                                (Inl e, w5) \<Rightarrow> (Inl e, w5)
                              | (Inr _, w5) \<Rightarrow>
                                  (Inr (seq_id + 1),
                                   time_sleep TELEMETRY_INTERVAL_SECONDS w5))
                           else
                             (Inr (seq_id + 1),
                              time_sleep TELEMETRY_INTERVAL_SECONDS w4)))))"

text \<open>
  The loop of \<^verbatim>\<open>main\<close> runs until an exception ends it: \<open>cycles\<close> is the number of passes
  it completes before the user interrupts it between two passes, unless an exception leaves a
  pass before.
\<close>

fun main_loop :: "device_env \<Rightarrow> nat \<Rightarrow> int \<Rightarrow> world \<Rightarrow> (exn + int) \<times> world" where
  "main_loop env 0 seq_id w = (Inr seq_id, w)"
| "main_loop env (Suc cycles) seq_id w =
     (case main_cycle env seq_id w of
        (Inl e, w') \<Rightarrow> (Inl e, w')
      | (Inr s, w') \<Rightarrow> main_loop env cycles s w')"

text \<open>
  \<^verbatim>\<open>main\<close>: the handler \<^verbatim>\<open>except KeyboardInterrupt\<close> around the loop calls
  \<^verbatim>\<open>sys.exit(0)\<close>, which raises \<^verbatim>\<open>SystemExit\<close>; any other exception leaves \<^verbatim>\<open>main\<close> as
  it is. The result is the exception that ends \<^verbatim>\<open>main\<close>.
\<close>

definition main :: "device_env \<Rightarrow> nat \<Rightarrow> exn \<times> world" where
  "main env cycles =
     (case main_loop env cycles 0 world_init of
        (Inr s, w) \<Rightarrow> (SystemExit, w)
      | (Inl e, w) \<Rightarrow> if e = KeyboardInterrupt then (SystemExit, w) else (e, w))"

subsection \<open>What one attempt makes of the result of the transport\<close>

text \<open>
  The results after which the loop goes on to another attempt while it has one left: a
  status that \<^verbatim>\<open>is_transient_error\<close> accepts, checked after 200 and 409, or an exception
  caught by one of the two retrying handlers.
\<close>

definition transient_result :: "transport_result \<Rightarrow> bool" where
  "transient_result r =
     (case r of
        Response sc b \<Rightarrow> sc \<noteq> 200 \<and> sc \<noteq> 409 \<and> is_transient_error (Some sc) None
      | Raises e \<Rightarrow> e \<in> {Timeout, ConnectTimeout, ConnectionError})"

text \<open>
  The results that end the call with an exception: the transport raised one that none of the
  handlers of \<^verbatim>\<open>send_with_retry\<close> catches.
\<close>

definition uncaught_result :: "transport_result \<Rightarrow> bool" where
  "uncaught_result r = (case r of Response sc b \<Rightarrow> False | Raises e \<Rightarrow> \<not> is_Exception e)"

text \<open>The events a call has added to the trace.\<close>

definition events_since :: "world \<Rightarrow> world \<Rightarrow> event list" where
  "events_since w w' = drop (length (trace w)) (trace w')"

subsection \<open>Reading a trace\<close>

fun is_Post :: "event \<Rightarrow> bool" where
  "is_Post (Post t) = True"
| "is_Post _ = False"

fun is_Sleep :: "event \<Rightarrow> bool" where
  "is_Sleep (Sleep d) = True"
| "is_Sleep _ = False"

fun is_drop_or_jitter :: "event \<Rightarrow> bool" where
  "is_drop_or_jitter (PacketDropDecision b) = True"
| "is_drop_or_jitter (JitterDecision b) = True"
| "is_drop_or_jitter _ = False"

text \<open>
  Whether every transmission in a list of events comes after a drop decision and then a
  delay decision of its own: \<open>stage\<close> counts how far the decisions for the next transmission
  have come (0 none, 1 the drop decision, 2 both).
\<close>

fun decisions_before_each_post :: "nat \<Rightarrow> event list \<Rightarrow> bool" where
  "decisions_before_each_post stage [] = True"
| "decisions_before_each_post stage (PacketDropDecision b # evs) =
     decisions_before_each_post 1 evs"
| "decisions_before_each_post stage (JitterDecision b # evs) =
     decisions_before_each_post (if stage = 1 then 2 else stage) evs"
| "decisions_before_each_post stage (Post t # evs) =
     (stage = 2 \<and> decisions_before_each_post 0 evs)"
| "decisions_before_each_post stage (e # evs) = decisions_before_each_post stage evs"

subsection \<open>Example inputs of the device\<close>

definition example_telemetry :: "int \<Rightarrow> telemetry" where
  "example_telemetry s =
     \<lparr>t_device_id = DEVICE_ID, t_sequence_id = s, t_timestamp = ''2025-01-01T00:00:00Z'',
      t_temperature = 23, t_humidity = 50, t_pressure = 1000\<rparr>"

text \<open>
  A world in which \<^verbatim>\<open>random.random()\<close> yields \<open>r n\<close> at its \<open>n\<close>-th call and the
  \<open>n\<close>-th \<^verbatim>\<open>requests.post\<close> results in \<open>results n\<close>.
\<close>

definition example_env :: "(nat \<Rightarrow> real) \<Rightarrow> (nat \<Rightarrow> transport_result) \<Rightarrow> device_env" where
  "example_env r results =
     \<lparr>rnd = r, net = results, utcnow = (\<lambda>s. ''2025-01-01T00:00:00Z'')\<rparr>"

section \<open>Properties of the cache\<close>

lemma cleanup_lookup:
  "cache (cleanup mc now) k =
     (case cache mc k of None \<Rightarrow> None | Some v \<Rightarrow> if v < now then None else Some v)"
  by (simp add: cleanup_def)

lemma cleanup_ttl [simp]: "ttl_seconds (cleanup mc now) = ttl_seconds mc"
  by (simp add: cleanup_def)

lemma has_seen_fst:
  "fst (has_seen mc d s now) =
     (case cache mc (cache_key d s) of None \<Rightarrow> False | Some v \<Rightarrow> \<not> v < now)"
  by (simp add: has_seen_def Let_def cleanup_lookup dom_def split: option.splits)

lemma has_seen_snd [simp]: "snd (has_seen mc d s now) = cleanup mc now"
  by (simp add: has_seen_def Let_def)

lemma mark_seen_lookup:
  "cache (mark_seen mc d s now) k =
     (if k = cache_key d s then Some (float_add now (float_of_int (ttl_seconds mc)))
      else cache mc k)"
  by (simp add: mark_seen_def Let_def)

lemma mark_seen_ttl [simp]: "ttl_seconds (mark_seen mc d s now) = ttl_seconds mc"
  by (simp add: mark_seen_def Let_def)

lemma apply_cache_op_ttl [simp]: "ttl_seconds (apply_cache_op mc c) = ttl_seconds mc"
  by (cases c) simp_all

text \<open>Evaluating the float operations on given numbers.\<close>

lemmas float_eval =
  float_add_def float_of_int_def double_round_def binade_def binade_up.simps binade_down.simps
  round_half_even_def pow2_def Let_def

lemma double_round_examples:
  "double_round (1 / 10) = 3602879701896397 / 2 ^ 55"
  "double_round (3001 / 10) = 2639707515964621 / 2 ^ 43"
  "double_round (2 ^ 53 + 1) = 2 ^ 53"
  "double_round (2 ^ 53 + 3) = 2 ^ 53 + 4"
  "double_round (- 5 / 2) = - 5 / 2"
  "double_round 0 = 0"
  by (simp_all add: float_eval)

lemma float_add_1000_300: "float_add 1000 (float_of_int 300) = 1300"
  by (simp add: float_eval)

lemma float_add_900_300: "float_add 900 (float_of_int 300) = 1200"
  by (simp add: float_eval)

lemma round_half_even_error: "\<bar>real_of_int (round_half_even y) - y\<bar> \<le> 1 / 2"
  unfolding round_half_even_def Let_def by (auto simp: abs_if) linarith+

text \<open>The double that is stored is within half a spacing of the exact sum.\<close>

lemma double_round_error: "\<bar>double_round x - x\<bar> \<le> pow2 (binade x - 52) / 2"
proof -
  define q where "q = pow2 (binade x - 52)"
  have q: "0 < q" by (simp add: q_def pow2_def)
  have "double_round x - x = (real_of_int (round_half_even (x / q)) - x / q) * q"
    using q by (simp add: double_round_def q_def [symmetric] algebra_simps)
  then have "\<bar>double_round x - x\<bar> = \<bar>real_of_int (round_half_even (x / q)) - x / q\<bar> * q"
    using q by (simp add: abs_mult)
  also have "\<dots> \<le> 1 / 2 * q"
    using round_half_even_error [of "x / q"] q by (intro mult_right_mono) simp_all
  finally show ?thesis by (simp add: q_def)
qed

text \<open>
  The key of an entry stays in the cache, with an expiry of at least \<open>E\<close>, under a call made
  no later than \<open>E\<close>, provided that a call that marks the key again does not write an expiry
  before \<open>E\<close>.
\<close>

lemma apply_cache_op_keeps:
  assumes "cache mc k = Some e" and "E \<le> e" and "op_time c \<le> E"
    and "is_MarkSeen c \<and> op_key c = k
           \<longrightarrow> E \<le> float_add (op_time c) (float_of_int (ttl_seconds mc))"
  shows "\<exists>e'. cache (apply_cache_op mc c) k = Some e' \<and> E \<le> e'"
  using assms by (cases c) (auto simp: cleanup_lookup mark_seen_lookup)

lemma apply_cache_ops_keeps:
  assumes "cache mc k = Some e" and "E \<le> e" and "ttl_seconds mc = ttl"
    and "\<forall>c \<in> set ops. op_time c \<le> E
           \<and> (is_MarkSeen c \<and> op_key c = k
                \<longrightarrow> E \<le> float_add (op_time c) (float_of_int ttl))"
  shows "\<exists>e'. cache (apply_cache_ops mc ops) k = Some e' \<and> E \<le> e'"
  using assms unfolding apply_cache_ops_def
proof (induction ops arbitrary: mc e)
  case Nil
  then show ?case by simp
next
  case (Cons c ops)
  obtain e' where e': "cache (apply_cache_op mc c) k = Some e'" "E \<le> e'"
    using apply_cache_op_keeps [where mc=mc and k=k and e=e and E=E and c=c] Cons.prems
    by auto
  have "\<exists>e''. cache (foldl apply_cache_op (apply_cache_op mc c) ops) k = Some e'' \<and> E \<le> e''"
    using Cons.IH [OF e'] Cons.prems by simp
  then show ?case by simp
qed

lemma apply_cache_op_no_refresh:
  assumes "case cache mc k of None \<Rightarrow> True | Some e \<Rightarrow> e \<le> E"
    and "is_MarkSeen c \<longrightarrow> op_key c \<noteq> k"
  shows "case cache (apply_cache_op mc c) k of None \<Rightarrow> True | Some e \<Rightarrow> e \<le> E"
  using assms by (cases c) (auto simp: cleanup_lookup mark_seen_lookup split: option.splits)

lemma apply_cache_ops_no_refresh:
  assumes "case cache mc k of None \<Rightarrow> True | Some e \<Rightarrow> e \<le> E"
    and "\<forall>c \<in> set ops. is_MarkSeen c \<longrightarrow> op_key c \<noteq> k"
  shows "case cache (apply_cache_ops mc ops) k of None \<Rightarrow> True | Some e \<Rightarrow> e \<le> E"
  using assms unfolding apply_cache_ops_def
proof (induction ops arbitrary: mc)
  case Nil
  then show ?case by simp
next
  case (Cons c ops)
  have "case cache (apply_cache_op mc c) k of None \<Rightarrow> True | Some e \<Rightarrow> e \<le> E"
    using apply_cache_op_no_refresh [where mc=mc and k=k and E=E and c=c] Cons.prems by simp
  then show ?case using Cons.IH Cons.prems by simp
qed

text \<open>
  Claim C10. The sweep removes exactly the entries whose expiry is strictly less than the
  clock reading and keeps every other entry as it is. So \<^verbatim>\<open>has_seen\<close> still answers true
  when the clock reading equals the expiry instant of the key, and for an entry with expiry
  \<open>e\<close> it answers true exactly for the readings \<open>now \<le> e\<close>: the key stops being seen only
  strictly after \<open>e\<close>.
\<close>

theorem cache_expiry_is_strict:
  "cache (cleanup mc now) k =
      (case cache mc k of None \<Rightarrow> None | Some v \<Rightarrow> if v < now then None else Some v)
   \<and> (cache mc (cache_key d s) = Some e \<longrightarrow>
        fst (has_seen mc d s e) \<and> (fst (has_seen mc d s now) \<longleftrightarrow> now \<le> e))"
  by (auto simp: cleanup_lookup has_seen_fst)

text \<open>An entry marked at 1000 with a TTL of 300: seen at 1300, not seen at 1301.\<close>

theorem cache_expiry_is_strict_witness:
  "cache (cleanup (mark_seen (MessageCache_init 300) ''device-001'' 7 1000) 1300)
     (cache_key ''device-001'' 7) = Some 1300
   \<and> fst (has_seen (mark_seen (MessageCache_init 300) ''device-001'' 7 1000) ''device-001'' 7 1300)
   \<and> \<not> fst (has_seen (mark_seen (MessageCache_init 300) ''device-001'' 7 1000) ''device-001'' 7 1301)"
proof -
  have stored: "cache (mark_seen (MessageCache_init 300) ''device-001'' 7 1000)
      (cache_key ''device-001'' 7) = Some 1300"
    by (simp add: mark_seen_lookup MessageCache_init_def float_eval)
  show ?thesis
    using cache_expiry_is_strict [of "mark_seen (MessageCache_init 300) ''device-001'' 7 1000" 1300
        "cache_key ''device-001'' 7" "''device-001''" 7 1300]
      cache_expiry_is_strict [of "mark_seen (MessageCache_init 300) ''device-001'' 7 1000" 1301
        "cache_key ''device-001'' 7" "''device-001''" 7 1300]
      stored
    by simp
qed

text \<open>
  Claim C4. Let \<^verbatim>\<open>mark_seen(d, s)\<close> be called at time \<open>t0\<close> on any cache, so that the key
  gets the expiry \<^verbatim>\<open>t0 + ttl_seconds\<close>, a float sum, and let any sequence of \<^verbatim>\<open>has_seen\<close>
  and \<^verbatim>\<open>mark_seen\<close> calls follow, on any keys. The TTL of the entry has elapsed when the
  clock is past that expiry. If the calls in between are made before the TTL has elapsed,
  and those among them that mark the key again do not write an earlier expiry, then
  \<^verbatim>\<open>has_seen(d, s)\<close> at any time before the TTL has elapsed returns true. If the key is not
  marked again, then \<^verbatim>\<open>has_seen(d, s)\<close> at any time after the TTL has elapsed, which runs
  the sweep, returns false. Marking the key again, at time \<open>t1\<close>, overwrites its entry with
  the float sum \<^verbatim>\<open>t1 + ttl_seconds\<close> and leaves the other entries as they are.
\<close>

theorem mark_seen_then_has_seen:
  "(\<forall>ops now.
      (\<forall>c \<in> set ops.
          op_time c \<le> float_add t0 (float_of_int (ttl_seconds mc))
          \<and> (is_MarkSeen c \<and> op_key c = cache_key d s
               \<longrightarrow> float_add t0 (float_of_int (ttl_seconds mc))
                     \<le> float_add (op_time c) (float_of_int (ttl_seconds mc))))
      \<and> now \<le> float_add t0 (float_of_int (ttl_seconds mc))
      \<longrightarrow> fst (has_seen (apply_cache_ops (mark_seen mc d s t0) ops) d s now))
   \<and> (\<forall>ops now.
      (\<forall>c \<in> set ops. is_MarkSeen c \<longrightarrow> op_key c \<noteq> cache_key d s)
      \<and> float_add t0 (float_of_int (ttl_seconds mc)) < now
      \<longrightarrow> \<not> fst (has_seen (apply_cache_ops (mark_seen mc d s t0) ops) d s now))
   \<and> (\<forall>t1 k. cache (mark_seen (mark_seen mc d s t0) d s t1) k =
              (if k = cache_key d s then Some (float_add t1 (float_of_int (ttl_seconds mc)))
               else cache mc k))"
proof (intro conjI allI impI)
  let ?E = "float_add t0 (float_of_int (ttl_seconds mc))"
  let ?k = "cache_key d s"
  let ?mc = "mark_seen mc d s t0"
  have start: "cache ?mc ?k = Some ?E"
    by (simp add: mark_seen_lookup)
  {
    fix ops now
    assume h: "(\<forall>c \<in> set ops.
          op_time c \<le> ?E
          \<and> (is_MarkSeen c \<and> op_key c = ?k
               \<longrightarrow> ?E \<le> float_add (op_time c) (float_of_int (ttl_seconds mc))))
        \<and> now \<le> ?E"
    have "\<exists>e'. cache (apply_cache_ops ?mc ops) ?k = Some e' \<and> ?E \<le> e'"
      using apply_cache_ops_keeps [where mc="?mc" and k="?k" and e="?E" and E="?E"
          and ttl="ttl_seconds mc" and ops=ops] h start
      by simp
    then show "fst (has_seen (apply_cache_ops ?mc ops) d s now)"
      using h by (auto simp: has_seen_fst)
  }
  {
    fix ops now
    assume h: "(\<forall>c \<in> set ops. is_MarkSeen c \<longrightarrow> op_key c \<noteq> ?k) \<and> ?E < now"
    have "case cache (apply_cache_ops ?mc ops) ?k of None \<Rightarrow> True | Some e \<Rightarrow> e \<le> ?E"
      using apply_cache_ops_no_refresh [where mc="?mc" and k="?k" and E="?E" and ops=ops] h start
      by simp
    then show "\<not> fst (has_seen (apply_cache_ops ?mc ops) d s now)"
      using h by (auto simp: has_seen_fst split: option.splits)
  }
  {
    fix t1 k
    show "cache (mark_seen ?mc d s t1) k =
        (if k = ?k then Some (float_add t1 (float_of_int (ttl_seconds mc))) else cache mc k)"
      by (simp add: mark_seen_lookup)
  }
qed

text \<open>
  A TTL of 300. A key marked at 1000 gets the expiry 1300; with calls on this key and on
  another one in between, one of which marks the key again at 1200, it is seen at 1300;
  without that one it is not seen at 1301; marked again at 1200 it gets the expiry 1500. A key marked at the double nearest to 0.1, which is
  \<open>3602879701896397 / 2 ^ 55\<close>, gets the expiry \<open>2639707515964621 / 2 ^ 43\<close>, the double
  nearest to 300.1, and is seen at that time.
\<close>

theorem mark_seen_then_has_seen_witness:
  "fst (has_seen
          (apply_cache_ops (mark_seen (MessageCache_init 300) ''device-001'' 7 1000)
             [HasSeen ''device-001'' 7 1100, MarkSeen ''device-002'' 1 1200,
              MarkSeen ''device-001'' 7 1200, HasSeen ''device-001'' 7 1250])
          ''device-001'' 7 1300)
   \<and> \<not> fst (has_seen
          (apply_cache_ops (mark_seen (MessageCache_init 300) ''device-001'' 7 1000)
             [HasSeen ''device-001'' 7 1100, MarkSeen ''device-002'' 1 1200])
          ''device-001'' 7 1301)
   \<and> cache (mark_seen (mark_seen (MessageCache_init 300) ''device-001'' 7 1000)
               ''device-001'' 7 1200) (cache_key ''device-001'' 7) = Some 1500
   \<and> fst (has_seen
          (mark_seen (MessageCache_init 300) ''device-001'' 7 (3602879701896397 / 2 ^ 55))
          ''device-001'' 7 (2639707515964621 / 2 ^ 43))"
proof -
  note inst = mark_seen_then_has_seen [where mc="MessageCache_init 300" and d="''device-001''"
      and s=7 and ?t0.0=1000]
  note tiny = mark_seen_then_has_seen [where mc="MessageCache_init 300" and d="''device-001''"
      and s=7 and ?t0.0="3602879701896397 / 2 ^ 55"]
  have ttl: "ttl_seconds (MessageCache_init 300) = 300"
    by (simp add: MessageCache_init_def)
  note e1300 = float_add_1000_300
  have e1500: "float_add 1200 (float_of_int 300) = 1500"
    by (simp add: float_eval)
  have e3001: "float_add (3602879701896397 / 2 ^ 55) (float_of_int 300)
      = 2639707515964621 / 2 ^ 43"
    by (simp add: float_eval)
  have keys: "cache_key ''device-002'' 1 \<noteq> cache_key ''device-001'' 7"
    by (simp add: cache_key_def)
  have a: "fst (has_seen
          (apply_cache_ops (mark_seen (MessageCache_init 300) ''device-001'' 7 1000)
             [HasSeen ''device-001'' 7 1100, MarkSeen ''device-002'' 1 1200,
              MarkSeen ''device-001'' 7 1200, HasSeen ''device-001'' 7 1250])
          ''device-001'' 7 1300)"
    using inst [THEN conjunct1, rule_format,
        of "[HasSeen ''device-001'' 7 1100, MarkSeen ''device-002'' 1 1200,
             MarkSeen ''device-001'' 7 1200, HasSeen ''device-001'' 7 1250]" 1300] keys
    by (simp add: ttl e1300 e1500)
  have b: "\<not> fst (has_seen
          (apply_cache_ops (mark_seen (MessageCache_init 300) ''device-001'' 7 1000)
             [HasSeen ''device-001'' 7 1100, MarkSeen ''device-002'' 1 1200])
          ''device-001'' 7 1301)"
    using inst [THEN conjunct2, THEN conjunct1, rule_format,
        of "[HasSeen ''device-001'' 7 1100, MarkSeen ''device-002'' 1 1200]" 1301] keys
    by (simp add: ttl e1300)
  have c: "cache (mark_seen (mark_seen (MessageCache_init 300) ''device-001'' 7 1000)
               ''device-001'' 7 1200) (cache_key ''device-001'' 7) = Some 1500"
    using inst [THEN conjunct2, THEN conjunct2, rule_format, of 1200 "cache_key ''device-001'' 7"]
    by (simp add: ttl e1500)
  have d: "fst (has_seen
          (mark_seen (MessageCache_init 300) ''device-001'' 7 (3602879701896397 / 2 ^ 55))
          ''device-001'' 7 (2639707515964621 / 2 ^ 43))"
    using tiny [unfolded ttl e3001, THEN conjunct1, rule_format,
        of "[]" "2639707515964621 / 2 ^ 43"]
    by (simp add: apply_cache_ops_def)
  show ?thesis using a b c d by blast
qed

section \<open>Properties of the ingest endpoint\<close>

lemma ingest_overloaded:
  assumes "overload_sample env < OVERLOAD_PROBABILITY"
  shows "fst (ingest_telemetry st msg env) = Inl (HTTPException 503 ''Service temporarily overloaded'')"
    and "message_cache (snd (ingest_telemetry st msg env)) = message_cache st"
  using assms by (simp_all add: ingest_telemetry_def ingest_telemetry_check_def Let_def)

lemma ingest_invalid:
  assumes "\<not> overload_sample env < OVERLOAD_PROBABILITY" and "sequence_id msg < 0"
  shows "fst (ingest_telemetry st msg env) = Inl (HTTPException 400 ''sequence_id must be >= 0'')"
    and "message_cache (snd (ingest_telemetry st msg env)) = message_cache st"
  using assms by (simp_all add: ingest_telemetry_def ingest_telemetry_check_def Let_def)

lemma ingest_duplicate:
  assumes "\<not> overload_sample env < OVERLOAD_PROBABILITY" and "0 \<le> sequence_id msg"
    and "fst (has_seen (message_cache st) (device_id msg) (sequence_id msg) (t_cleanup env))"
  shows "fst (ingest_telemetry st msg env) = Inl (HTTPException 409 ''Duplicate message'')"
    and "message_cache (snd (ingest_telemetry st msg env)) = cleanup (message_cache st) (t_cleanup env)"
  using assms
  by (simp_all add: ingest_telemetry_def ingest_telemetry_check_def has_seen_def Let_def)

lemma ingest_accept:
  assumes "\<not> overload_sample env < OVERLOAD_PROBABILITY" and "0 \<le> sequence_id msg"
    and "\<not> fst (has_seen (message_cache st) (device_id msg) (sequence_id msg) (t_cleanup env))"
  shows "fst (ingest_telemetry st msg env) =
           Inr \<lparr>status = ''accepted'', message = ''Telemetry ingested successfully'',
                correlation_id = uuid4 env\<rparr>"
    and "message_cache (snd (ingest_telemetry st msg env)) =
           mark_seen (cleanup (message_cache st) (t_cleanup env)) (device_id msg) (sequence_id msg)
             (t_mark env)"
  using assms
  by (simp_all add: ingest_telemetry_def ingest_telemetry_check_def ingest_telemetry_accept_def
        has_seen_def Let_def)

lemma ingest_cases:
  obtains (overload) "overload_sample env < OVERLOAD_PROBABILITY"
  | (invalid) "\<not> overload_sample env < OVERLOAD_PROBABILITY" "sequence_id msg < 0"
  | (duplicate) "\<not> overload_sample env < OVERLOAD_PROBABILITY" "0 \<le> sequence_id msg"
      "fst (has_seen (message_cache st) (device_id msg) (sequence_id msg) (t_cleanup env))"
  | (accept) "\<not> overload_sample env < OVERLOAD_PROBABILITY" "0 \<le> sequence_id msg"
      "\<not> fst (has_seen (message_cache st) (device_id msg) (sequence_id msg) (t_cleanup env))"
  by (cases "overload_sample env < OVERLOAD_PROBABILITY"; cases "sequence_id msg < 0";
      cases "fst (has_seen (message_cache st) (device_id msg) (sequence_id msg) (t_cleanup env))")
     auto

lemma ingest_ttl [simp]:
  "ttl_seconds (message_cache (snd (ingest_telemetry st msg env))) = ttl_seconds (message_cache st)"
  by (cases rule: ingest_cases [where env=env and msg=msg and st=st])
     (simp_all add: ingest_overloaded ingest_invalid ingest_duplicate ingest_accept)

lemma is_accepted_iff:
  "is_accepted (fst (ingest_telemetry st msg env)) \<longleftrightarrow>
     \<not> overload_sample env < OVERLOAD_PROBABILITY \<and> 0 \<le> sequence_id msg \<and>
     \<not> fst (has_seen (message_cache st) (device_id msg) (sequence_id msg) (t_cleanup env))"
  by (cases rule: ingest_cases [where env=env and msg=msg and st=st])
     (simp_all add: ingest_overloaded ingest_invalid ingest_duplicate ingest_accept is_accepted_def)

lemma is_duplicate_iff:
  "is_duplicate (fst (ingest_telemetry st msg env)) \<longleftrightarrow>
     \<not> overload_sample env < OVERLOAD_PROBABILITY \<and> 0 \<le> sequence_id msg \<and>
     fst (has_seen (message_cache st) (device_id msg) (sequence_id msg) (t_cleanup env))"
  by (cases rule: ingest_cases [where env=env and msg=msg and st=st])
     (simp_all add: ingest_overloaded ingest_invalid ingest_duplicate ingest_accept is_duplicate_def)

lemma ingest_keeps_entry:
  assumes "cache (message_cache st) k = Some e" and "t_cleanup env \<le> e"
  shows "cache (message_cache (snd (ingest_telemetry st msg env))) k = Some e"
    and "msg_key msg = k \<Longrightarrow> \<not> is_accepted (fst (ingest_telemetry st msg env))"
proof -
  show "msg_key msg = k \<Longrightarrow> \<not> is_accepted (fst (ingest_telemetry st msg env))"
    using assms by (simp add: is_accepted_iff has_seen_fst msg_key_def)
  show "cache (message_cache (snd (ingest_telemetry st msg env))) k = Some e"
  proof (cases rule: ingest_cases [where env=env and msg=msg and st=st])
    case overload
    then show ?thesis using assms by (simp add: ingest_overloaded)
  next
    case invalid
    then show ?thesis using assms by (simp add: ingest_invalid)
  next
    case duplicate
    then show ?thesis using assms by (simp add: ingest_duplicate cleanup_lookup)
  next
    case accept
    then have "cache_key (device_id msg) (sequence_id msg) \<noteq> k"
      using assms by (auto simp: has_seen_fst)
    then show ?thesis using accept assms
      by (simp add: ingest_accept mark_seen_lookup cleanup_lookup)
  qed
qed

lemma ingest_run_Cons:
  "ingest_run st ((msg, env) # reqs) =
     (fst (ingest_telemetry st msg env) # fst (ingest_run (snd (ingest_telemetry st msg env)) reqs),
      snd (ingest_run (snd (ingest_telemetry st msg env)) reqs))"
  by (simp split: prod.splits)

lemma ingest_run_length [simp]: "length (fst (ingest_run st reqs)) = length reqs"
proof (induction reqs arbitrary: st)
  case Nil
  then show ?case by simp
next
  case (Cons q reqs)
  then show ?case by (cases q) (simp add: ingest_run_Cons del: ingest_run.simps)
qed

lemma ingest_run_keeps_entry:
  assumes "cache (message_cache st) k = Some e"
    and "\<forall>q \<in> set reqs. t_cleanup (snd q) \<le> e"
    and "i < length reqs" and "msg_key (fst (reqs ! i)) = k"
  shows "\<not> is_accepted (fst (ingest_run st reqs) ! i)"
  using assms
proof (induction reqs arbitrary: st i)
  case Nil
  then show ?case by simp
next
  case (Cons q reqs)
  obtain msg env where q: "q = (msg, env)" by (cases q)
  let ?st' = "snd (ingest_telemetry st msg env)"
  have env: "t_cleanup env \<le> e" using Cons.prems(2) q by simp
  have kept: "cache (message_cache ?st') k = Some e"
    using ingest_keeps_entry(1) [OF Cons.prems(1) env] .
  show ?case
  proof (cases i)
    case 0
    then have "msg_key msg = k" using Cons.prems(4) q by simp
    then have "\<not> is_accepted (fst (ingest_telemetry st msg env))"
      using ingest_keeps_entry(2) [OF Cons.prems(1) env] by simp
    then show ?thesis using 0 q by (simp add: ingest_run_Cons del: ingest_run.simps)
  next
    case (Suc j)
    have "\<not> is_accepted (fst (ingest_run ?st' reqs) ! j)"
      using Cons.IH [OF kept, of j] Cons.prems Suc by simp
    then show ?thesis using Suc q by (simp add: ingest_run_Cons del: ingest_run.simps)
  qed
qed

lemma ingest_run_all_duplicates:
  assumes "cache (message_cache st) k = Some e"
    and "\<forall>q \<in> set reqs. t_cleanup (snd q) \<le> e \<and> msg_key (fst q) = k
           \<and> 0 \<le> sequence_id (fst q) \<and> \<not> overload_sample (snd q) < OVERLOAD_PROBABILITY"
  shows "fst (ingest_run st reqs) =
           replicate (length reqs) (Inl (HTTPException 409 ''Duplicate message''))"
  using assms
proof (induction reqs arbitrary: st)
  case Nil
  then show ?case by simp
next
  case (Cons q reqs)
  obtain msg env where q: "q = (msg, env)" by (cases q)
  let ?st' = "snd (ingest_telemetry st msg env)"
  have env: "t_cleanup env \<le> e" using Cons.prems(2) q by simp
  have kept: "cache (message_cache ?st') k = Some e"
    using ingest_keeps_entry(1) [OF Cons.prems(1) env] .
  have seen: "fst (has_seen (message_cache st) (device_id msg) (sequence_id msg) (t_cleanup env))"
    using Cons.prems q by (simp add: has_seen_fst msg_key_def)
  have "fst (ingest_telemetry st msg env) = Inl (HTTPException 409 ''Duplicate message'')"
    using ingest_duplicate(1) [OF _ _ seen] Cons.prems(2) q by simp
  moreover have "fst (ingest_run ?st' reqs) =
      replicate (length reqs) (Inl (HTTPException 409 ''Duplicate message''))"
    using Cons.IH [OF kept] Cons.prems(2) by simp
  ultimately show ?case using q by (simp add: ingest_run_Cons del: ingest_run.simps)
qed

text \<open>
  Claim C1, as the code has it. Take a message with \<^verbatim>\<open>sequence_id >= 0\<close> whose key the cache
  does not hold when it first arrives (the key is absent or expired), and submit it twice,
  the second request being handled after the first has completed, with the overload gate
  firing on neither request and the second one reaching the idempotency check no later than
  the expiry written for the first. Then the first request is accepted and the second gets
  status 409. When the requests are handled one after the other, then after any accepted
  request no later request with the same key is accepted as long as the requests in between
  and itself reach the check no later than that expiry. And a request that ends as a
  duplicate leaves the cache as the sweep of \<^verbatim>\<open>has_seen\<close> left it: every entry it holds
  afterwards was held before, with the same expiry.
\<close>

theorem accepted_then_duplicate:
  "(0 \<le> sequence_id msg
      \<and> \<not> overload_sample env1 < OVERLOAD_PROBABILITY
      \<and> \<not> overload_sample env2 < OVERLOAD_PROBABILITY
      \<and> \<not> fst (has_seen (message_cache st) (device_id msg) (sequence_id msg) (t_cleanup env1))
      \<and> t_cleanup env2 \<le> float_add (t_mark env1) (float_of_int (ttl_seconds (message_cache st)))
    \<longrightarrow> fst (ingest_telemetry st msg env1) =
          Inr \<lparr>status = ''accepted'', message = ''Telemetry ingested successfully'',
               correlation_id = uuid4 env1\<rparr>
        \<and> fst (ingest_telemetry (snd (ingest_telemetry st msg env1)) msg env2) =
          Inl (HTTPException 409 ''Duplicate message''))
   \<and> (is_accepted (fst (ingest_telemetry st msg env1))
      \<and> (\<forall>q \<in> set reqs.
            t_cleanup (snd q) \<le> float_add (t_mark env1) (float_of_int (ttl_seconds (message_cache st))))
      \<and> i < length reqs \<and> msg_key (fst (reqs ! i)) = msg_key msg
    \<longrightarrow> \<not> is_accepted (fst (ingest_run (snd (ingest_telemetry st msg env1)) reqs) ! i))
   \<and> (is_duplicate (fst (ingest_telemetry st msg env1))
    \<longrightarrow> message_cache (snd (ingest_telemetry st msg env1))
          = cleanup (message_cache st) (t_cleanup env1)
        \<and> cache (message_cache (snd (ingest_telemetry st msg env1))) \<subseteq>\<^sub>m cache (message_cache st))"
proof (intro conjI impI)
  let ?st1 = "snd (ingest_telemetry st msg env1)"
  let ?E = "float_add (t_mark env1) (float_of_int (ttl_seconds (message_cache st)))"
  have marked: "cache (message_cache ?st1) (msg_key msg) = Some ?E"
    if "is_accepted (fst (ingest_telemetry st msg env1))"
    using that by (simp add: is_accepted_iff ingest_accept mark_seen_lookup msg_key_def)
  {
    assume h: "0 \<le> sequence_id msg
      \<and> \<not> overload_sample env1 < OVERLOAD_PROBABILITY
      \<and> \<not> overload_sample env2 < OVERLOAD_PROBABILITY
      \<and> \<not> fst (has_seen (message_cache st) (device_id msg) (sequence_id msg) (t_cleanup env1))
      \<and> t_cleanup env2 \<le> ?E"
    then show "fst (ingest_telemetry st msg env1) =
          Inr \<lparr>status = ''accepted'', message = ''Telemetry ingested successfully'',
               correlation_id = uuid4 env1\<rparr>"
      by (simp add: ingest_accept)
    have "is_accepted (fst (ingest_telemetry st msg env1))"
      using h by (simp add: is_accepted_iff)
    then have "fst (has_seen (message_cache ?st1) (device_id msg) (sequence_id msg) (t_cleanup env2))"
      using marked h by (simp add: has_seen_fst msg_key_def)
    then show "fst (ingest_telemetry ?st1 msg env2) = Inl (HTTPException 409 ''Duplicate message'')"
      using h by (simp add: ingest_duplicate)
  }
  {
    assume h: "is_accepted (fst (ingest_telemetry st msg env1))
      \<and> (\<forall>q \<in> set reqs. t_cleanup (snd q) \<le> ?E)
      \<and> i < length reqs \<and> msg_key (fst (reqs ! i)) = msg_key msg"
    show "\<not> is_accepted (fst (ingest_run ?st1 reqs) ! i)"
      using ingest_run_keeps_entry [where st="?st1" and k="msg_key msg" and e="?E" and reqs=reqs
          and i=i] marked h
      by simp
  }
  {
    assume h: "is_duplicate (fst (ingest_telemetry st msg env1))"
    then show eq: "message_cache ?st1 = cleanup (message_cache st) (t_cleanup env1)"
      by (simp add: is_duplicate_iff ingest_duplicate)
    show "cache (message_cache ?st1) \<subseteq>\<^sub>m cache (message_cache st)"
      unfolding eq by (auto simp: map_le_def cleanup_lookup split: option.splits if_splits)
  }
qed

text \<open>
  The service starts empty; a message is accepted at 1000 and is a duplicate at 1300, also
  after a request of another device.
\<close>

theorem accepted_then_duplicate_witness:
  "fst (ingest_telemetry app_init (example_message ''device-001'' 7) (example_request 1000)) =
     Inr \<lparr>status = ''accepted'', message = ''Telemetry ingested successfully'',
          correlation_id = ''c0ffee00-0000-4000-8000-000000000000''\<rparr>
   \<and> fst (ingest_telemetry
            (snd (ingest_telemetry app_init (example_message ''device-001'' 7) (example_request 1000)))
            (example_message ''device-001'' 7) (example_request 1300)) =
     Inl (HTTPException 409 ''Duplicate message'')
   \<and> \<not> is_accepted
        (fst (ingest_run
               (snd (ingest_telemetry app_init (example_message ''device-001'' 7)
                      (example_request 1000)))
               [(example_message ''device-002'' 7, example_request 1100),
                (example_message ''device-001'' 7, example_request 1300)]) ! 1)
   \<and> cache (message_cache
         (snd (ingest_telemetry
                (snd (ingest_telemetry app_init (example_message ''device-001'' 7)
                       (example_request 1000)))
                (example_message ''device-001'' 7) (example_request 1300))))
       \<subseteq>\<^sub>m
       cache (message_cache
         (snd (ingest_telemetry app_init (example_message ''device-001'' 7)
                (example_request 1000))))"
proof -
  let ?st1 = "snd (ingest_telemetry app_init (example_message ''device-001'' 7)
      (example_request 1000))"
  note again = accepted_then_duplicate [where st="?st1"
      and msg="example_message ''device-001'' 7" and ?env1.0="example_request 1300"]
  note inst = accepted_then_duplicate [where st=app_init and msg="example_message ''device-001'' 7"
      and ?env1.0="example_request 1000" and ?env2.0="example_request 1300"
      and reqs="[(example_message ''device-002'' 7, example_request 1100),
                 (example_message ''device-001'' 7, example_request 1300)]" and i=1]
  have unseen: "\<not> fst (has_seen (message_cache app_init) ''device-001'' 7 1000)"
    by (simp add: has_seen_fst app_init_def MessageCache_init_def)
  have acc: "is_accepted (fst (ingest_telemetry app_init (example_message ''device-001'' 7)
      (example_request 1000)))"
    using unseen
    by (simp add: is_accepted_iff example_message_def example_request_def OVERLOAD_PROBABILITY_def)
  have first: "fst (ingest_telemetry app_init (example_message ''device-001'' 7)
        (example_request 1000)) =
      Inr \<lparr>status = ''accepted'', message = ''Telemetry ingested successfully'',
           correlation_id = ''c0ffee00-0000-4000-8000-000000000000''\<rparr>
     \<and> fst (ingest_telemetry ?st1 (example_message ''device-001'' 7) (example_request 1300)) =
      Inl (HTTPException 409 ''Duplicate message'')
     \<and> \<not> is_accepted
        (fst (ingest_run ?st1
               [(example_message ''device-002'' 7, example_request 1100),
                (example_message ''device-001'' 7, example_request 1300)]) ! 1)"
    using inst unseen acc
    by (simp add: example_message_def example_request_def app_init_def MessageCache_init_def
        OVERLOAD_PROBABILITY_def float_add_1000_300)
  then have "is_duplicate (fst (ingest_telemetry ?st1 (example_message ''device-001'' 7)
      (example_request 1300)))"
    by (simp add: is_duplicate_def)
  then have "cache (message_cache (snd (ingest_telemetry ?st1 (example_message ''device-001'' 7)
        (example_request 1300))))
      \<subseteq>\<^sub>m cache (message_cache ?st1)"
    using again by blast
  then show ?thesis using first by blast
qed


text \<open>
  Claim C1 as stated fails in two ways. A message that was accepted at 900 is in the cache:
  submitted twice, at 1000 and at 1001, it gets status 409 already the first time. And the
  handler takes no lock: when two workers hold the same new message, at 1000 and at 1001, and
  both run the idempotency check before either runs its accept block, the key is accepted
  twice within its TTL.
\<close>

theorem first_duplicate_and_accepted_twice:
  "fst (ingest_telemetry
          (snd (ingest_telemetry app_init (example_message ''device-001'' 7) (example_request 900)))
          (example_message ''device-001'' 7) (example_request 1000)) =
     Inl (HTTPException 409 ''Duplicate message'')
   \<and> map w_progress
        (snd (run_schedule app_init
                (arrive [(example_message ''device-001'' 7, example_request 1000),
                         (example_message ''device-001'' 7, example_request 1001)])
                [0, 1, 1, 0])) =
     [Finished (Inr \<lparr>status = ''accepted'', message = ''Telemetry ingested successfully'',
                     correlation_id = ''c0ffee00-0000-4000-8000-000000000000''\<rparr>),
      Finished (Inr \<lparr>status = ''accepted'', message = ''Telemetry ingested successfully'',
                     correlation_id = ''c0ffee00-0000-4000-8000-000000000000''\<rparr>)]"
proof
  let ?m = "example_message ''device-001'' 7"
  let ?st = "snd (ingest_telemetry app_init ?m (example_request 900))"
  have gate: "\<not> overload_sample (example_request t) < OVERLOAD_PROBABILITY" for t
    by (simp add: example_request_def OVERLOAD_PROBABILITY_def)
  have valid: "0 \<le> sequence_id ?m"
    by (simp add: example_message_def)
  have unseen: "\<not> fst (has_seen (message_cache app_init) (device_id ?m) (sequence_id ?m)
      (t_cleanup (example_request 900)))"
    by (simp add: has_seen_fst app_init_def MessageCache_init_def)
  have "cache (message_cache ?st) (cache_key (device_id ?m) (sequence_id ?m)) = Some 1200"
    using ingest_accept(2) [OF gate valid unseen]
    by (simp add: mark_seen_lookup app_init_def MessageCache_init_def example_request_def
        float_add_900_300)
  then have "fst (has_seen (message_cache ?st) (device_id ?m) (sequence_id ?m)
      (t_cleanup (example_request 1000)))"
    by (simp add: has_seen_fst example_request_def)
  then show "fst (ingest_telemetry ?st ?m (example_request 1000)) =
      Inl (HTTPException 409 ''Duplicate message'')"
    using ingest_duplicate(1) [OF gate valid] by simp
  show "map w_progress
        (snd (run_schedule app_init
                (arrive [(example_message ''device-001'' 7, example_request 1000),
                         (example_message ''device-001'' 7, example_request 1001)])
                [0, 1, 1, 0])) =
     [Finished (Inr \<lparr>status = ''accepted'', message = ''Telemetry ingested successfully'',
                     correlation_id = ''c0ffee00-0000-4000-8000-000000000000''\<rparr>),
      Finished (Inr \<lparr>status = ''accepted'', message = ''Telemetry ingested successfully'',
                     correlation_id = ''c0ffee00-0000-4000-8000-000000000000''\<rparr>)]"
    by (simp add: arrive_def worker_turn_def ingest_telemetry_check_def
        ingest_telemetry_accept_def has_seen_def cleanup_def mark_seen_def example_message_def
        example_request_def app_init_def MessageCache_init_def Metrics_init_def
        OVERLOAD_PROBABILITY_def Let_def)
qed

text \<open>
  Claim C5. When the overload gate does not fire, a message with a negative
  \<^verbatim>\<open>sequence_id\<close> gets the \<^verbatim>\<open>HTTPException\<close> with status 400, whatever cache the service
  holds; the cache is left exactly as it was, so the message is not remembered; and the result
  does not depend on the clock, which only the cache methods read.
\<close>

theorem negative_sequence_is_rejected:
  assumes "sequence_id msg < 0" and "\<not> overload_sample env < OVERLOAD_PROBABILITY"
  shows "fst (ingest_telemetry (st\<lparr>message_cache := mc\<rparr>) msg env) =
           Inl (HTTPException 400 ''sequence_id must be >= 0'')
       \<and> is_rejected (fst (ingest_telemetry (st\<lparr>message_cache := mc\<rparr>) msg env))
       \<and> message_cache (snd (ingest_telemetry (st\<lparr>message_cache := mc\<rparr>) msg env)) = mc
       \<and> ingest_telemetry st msg (env\<lparr>t_cleanup := a, t_mark := b\<rparr>) = ingest_telemetry st msg env"
  using assms
  by (simp add: ingest_telemetry_def ingest_telemetry_check_def is_rejected_def Let_def)

text \<open>The rejected message even has its own key in the cache.\<close>

theorem negative_sequence_is_rejected_witness:
  "fst (ingest_telemetry
          (app_init\<lparr>message_cache := mark_seen (MessageCache_init 300) ''device-001'' (- 1) 1000\<rparr>)
          \<lparr>device_id = ''device-001'', sequence_id = - 1, timestamp = ''t'', temperature = None,
           humidity = None, pressure = None\<rparr>
          \<lparr>uuid4 = ''u'', overload_sample = 1 / 2, t_cleanup = 1001, t_mark = 1002\<rparr>)
     = Inl (HTTPException 400 ''sequence_id must be >= 0'')"
  using negative_sequence_is_rejected [where
      msg = "\<lparr>device_id = ''device-001'', sequence_id = - 1, timestamp = ''t'', temperature = None,
        humidity = None, pressure = None\<rparr>"
      and env = "\<lparr>uuid4 = ''u'', overload_sample = 1 / 2, t_cleanup = 1001, t_mark = 1002\<rparr>"
      and st = app_init and mc = "mark_seen (MessageCache_init 300) ''device-001'' (- 1) 1000"
      and a = 1001 and b = 1002]
  by (simp add: OVERLOAD_PROBABILITY_def)

section \<open>Requests served by concurrent workers\<close>

lemma worker_turn_twice:
  "w_progress w = Arrived \<Longrightarrow>
   (case worker_turn st w of (st', w') \<Rightarrow> worker_turn st' w') =
     (snd (ingest_telemetry st (w_msg w) (w_env w)),
      w\<lparr>w_progress := Finished (fst (ingest_telemetry st (w_msg w) (w_env w)))\<rparr>)"
  by (auto simp: worker_turn_def ingest_telemetry_def split: prod.splits option.splits)

lemma run_schedule_twice:
  assumes "w_progress w = Arrived"
  shows "run_schedule st (pre @ w # post) (length pre # length pre # sched) =
     run_schedule (snd (ingest_telemetry st (w_msg w) (w_env w)))
       ((pre @ [w\<lparr>w_progress := Finished (fst (ingest_telemetry st (w_msg w) (w_env w)))\<rparr>]) @ post)
       sched"
proof -
  obtain st1 w1 where t1: "worker_turn st w = (st1, w1)" by (cases "worker_turn st w")
  obtain st2 w2 where t2: "worker_turn st1 w1 = (st2, w2)" by (cases "worker_turn st1 w1")
  have "(st2, w2) = (snd (ingest_telemetry st (w_msg w) (w_env w)),
      w\<lparr>w_progress := Finished (fst (ingest_telemetry st (w_msg w) (w_env w)))\<rparr>)"
    using worker_turn_twice [OF assms(1), of st] t1 t2 by simp
  then show ?thesis using t1 t2 by (simp add: nth_append_length list_update_length)
qed

lemma sequential_schedule_Suc:
  "sequential_schedule n (Suc k) = n # n # sequential_schedule (Suc n) k"
proof -
  have "[n..<n + Suc k] = n # [Suc n..<Suc n + k]"
    by (subst upt_rec) simp
  then show ?thesis
    unfolding sequential_schedule_def by simp
qed

lemma run_schedule_sequential:
  "run_schedule st (pre @ arrive reqs) (sequential_schedule (length pre) (length reqs)) =
     (snd (ingest_run st reqs),
      pre @ map (\<lambda>((msg, env), r). \<lparr>w_msg = msg, w_env = env, w_progress = Finished r\<rparr>)
              (zip reqs (fst (ingest_run st reqs))))"
proof (induction reqs arbitrary: st pre)
  case Nil
  then show ?case by (simp add: arrive_def sequential_schedule_def)
next
  case (Cons q reqs)
  obtain msg env where q: "q = (msg, env)" by (cases q)
  let ?w = "\<lparr>w_msg = msg, w_env = env, w_progress = Arrived\<rparr>"
  let ?r = "fst (ingest_telemetry st msg env)"
  let ?st' = "snd (ingest_telemetry st msg env)"
  let ?pre' = "pre @ [?w\<lparr>w_progress := Finished ?r\<rparr>]"
  have sched: "sequential_schedule (length pre) (length (q # reqs)) =
      length pre # length pre # sequential_schedule (length ?pre') (length reqs)"
    by (simp add: sequential_schedule_Suc)
  have ws: "pre @ arrive (q # reqs) = pre @ ?w # arrive reqs"
    by (simp add: arrive_def q)
  have "run_schedule st (pre @ arrive (q # reqs)) (sequential_schedule (length pre) (length (q # reqs)))
      = run_schedule ?st' (?pre' @ arrive reqs) (sequential_schedule (length ?pre') (length reqs))"
    unfolding sched ws
    using run_schedule_twice [where w="?w" and pre=pre and st=st
        and post="arrive reqs" and sched="sequential_schedule (length ?pre') (length reqs)"]
    by simp
  also have "\<dots> = (snd (ingest_run ?st' reqs),
      ?pre' @ map (\<lambda>((msg, env), r). \<lparr>w_msg = msg, w_env = env, w_progress = Finished r\<rparr>)
              (zip reqs (fst (ingest_run ?st' reqs))))"
    by (rule Cons.IH)
  finally show ?case
    by (simp add: q ingest_run_Cons del: ingest_run.simps)
qed

lemma ingest_run_first_then_duplicates:
  assumes "0 \<le> sequence_id msg" and "\<not> overload_sample env < OVERLOAD_PROBABILITY"
    and "msg_key msg \<notin> dom (cache (message_cache st))"
    and "\<forall>q \<in> set reqs.
           msg_key (fst q) = msg_key msg \<and> 0 \<le> sequence_id (fst q)
           \<and> \<not> overload_sample (snd q) < OVERLOAD_PROBABILITY
           \<and> t_cleanup (snd q) \<le> float_add (t_mark env) (float_of_int (ttl_seconds (message_cache st)))"
  shows "fst (ingest_run st ((msg, env) # reqs)) =
           Inr \<lparr>status = ''accepted'', message = ''Telemetry ingested successfully'',
                correlation_id = uuid4 env\<rparr>
           # replicate (length reqs) (Inl (HTTPException 409 ''Duplicate message''))"
proof -
  let ?st1 = "snd (ingest_telemetry st msg env)"
  let ?E = "float_add (t_mark env) (float_of_int (ttl_seconds (message_cache st)))"
  have unseen: "\<not> fst (has_seen (message_cache st) (device_id msg) (sequence_id msg) (t_cleanup env))"
    using assms(3) by (auto simp: has_seen_fst msg_key_def dom_def split: option.splits)
  have first: "fst (ingest_telemetry st msg env) =
      Inr \<lparr>status = ''accepted'', message = ''Telemetry ingested successfully'',
           correlation_id = uuid4 env\<rparr>"
    using ingest_accept(1) [OF assms(2) assms(1) unseen] .
  have marked: "cache (message_cache ?st1) (msg_key msg) = Some ?E"
    using ingest_accept(2) [OF assms(2) assms(1) unseen]
    by (simp add: mark_seen_lookup msg_key_def)
  have rest: "fst (ingest_run ?st1 reqs) =
      replicate (length reqs) (Inl (HTTPException 409 ''Duplicate message''))"
    using ingest_run_all_duplicates [OF marked, of reqs] assms(4) by simp
  show ?thesis
    using first rest by (simp add: ingest_run_Cons del: ingest_run.simps)
qed

lemma progress_of_finished:
  "length reqs = length outs \<Longrightarrow>
   map w_progress
     (map (\<lambda>((msg, env), r). \<lparr>w_msg = msg, w_env = env, w_progress = Finished r\<rparr>)
        (zip reqs outs)) = map Finished outs"
  by (induction reqs outs rule: list_induct2) auto

text \<open>
  Claim C9, as the code has it. The handler takes no lock. When the workers run one after
  the other, each doing its check and its accept block back to back, then of \<open>N\<close> deliveries
  with one key that is not in the cache, the overload gate firing on none, each reaching the
  check no later than the expiry written by the first, the first is accepted and the other
  \<open>N - 1\<close> get status 409.
\<close>

theorem back_to_back_deliveries_accept_once:
  assumes "0 \<le> sequence_id msg" and "\<not> overload_sample env < OVERLOAD_PROBABILITY"
    and "msg_key msg \<notin> dom (cache (message_cache st))"
    and "\<forall>q \<in> set reqs.
           msg_key (fst q) = msg_key msg \<and> 0 \<le> sequence_id (fst q)
           \<and> \<not> overload_sample (snd q) < OVERLOAD_PROBABILITY
           \<and> t_cleanup (snd q) \<le> float_add (t_mark env) (float_of_int (ttl_seconds (message_cache st)))"
  shows "map w_progress
           (snd (run_schedule st (arrive ((msg, env) # reqs))
                   (sequential_schedule 0 (Suc (length reqs))))) =
           Finished (Inr \<lparr>status = ''accepted'', message = ''Telemetry ingested successfully'',
                          correlation_id = uuid4 env\<rparr>)
           # replicate (length reqs) (Finished (Inl (HTTPException 409 ''Duplicate message'')))"
proof -
  let ?reqs = "(msg, env) # reqs"
  let ?outs = "fst (ingest_run st ?reqs)"
  have outs: "?outs =
      Inr \<lparr>status = ''accepted'', message = ''Telemetry ingested successfully'',
           correlation_id = uuid4 env\<rparr>
      # replicate (length reqs) (Inl (HTTPException 409 ''Duplicate message''))"
    using ingest_run_first_then_duplicates [OF assms] .
  have "snd (run_schedule st ([] @ arrive ?reqs) (sequential_schedule (length ([] :: worker list)) (length ?reqs)))
      = [] @ map (\<lambda>((msg, env), r). \<lparr>w_msg = msg, w_env = env, w_progress = Finished r\<rparr>)
              (zip ?reqs ?outs)"
    by (simp only: run_schedule_sequential snd_conv)
  then have "map w_progress (snd (run_schedule st (arrive ?reqs)
                   (sequential_schedule 0 (Suc (length reqs)))))
      = map w_progress (map (\<lambda>((msg, env), r). \<lparr>w_msg = msg, w_env = env, w_progress = Finished r\<rparr>)
              (zip ?reqs ?outs))"
    by simp
  also have "\<dots> = map Finished ?outs"
    by (rule progress_of_finished) (simp del: ingest_run.simps)
  finally show ?thesis
    unfolding outs by simp
qed

text \<open>Three deliveries of one message, at 1000, 1001 and 1300.\<close>

theorem back_to_back_deliveries_accept_once_witness:
  "map w_progress
     (snd (run_schedule app_init
             (arrive [(example_message ''device-001'' 7, example_request 1000),
                      (example_message ''device-001'' 7, example_request 1001),
                      (example_message ''device-001'' 7, example_request 1300)])
             (sequential_schedule 0 3))) =
     [Finished (Inr \<lparr>status = ''accepted'', message = ''Telemetry ingested successfully'',
                     correlation_id = ''c0ffee00-0000-4000-8000-000000000000''\<rparr>),
      Finished (Inl (HTTPException 409 ''Duplicate message'')),
      Finished (Inl (HTTPException 409 ''Duplicate message''))]"
  using back_to_back_deliveries_accept_once [where st=app_init
      and msg="example_message ''device-001'' 7" and env="example_request 1000"
      and reqs="[(example_message ''device-001'' 7, example_request 1001),
                 (example_message ''device-001'' 7, example_request 1300)]"]
  by (simp add: example_message_def example_request_def app_init_def MessageCache_init_def
      OVERLOAD_PROBABILITY_def numeral_3_eq_3 float_add_1000_300)

text \<open>
  Claim C9 as stated fails: two workers hold the same message, both run the idempotency check
  before either runs its accept block, and both are accepted.
\<close>

theorem interleaved_deliveries_both_accepted:
  "map w_progress
     (snd (run_schedule app_init
             (arrive [(example_message ''device-001'' 7, example_request 1000),
                      (example_message ''device-001'' 7, example_request 1000)])
             [0, 1, 0, 1])) =
     [Finished (Inr \<lparr>status = ''accepted'', message = ''Telemetry ingested successfully'',
                     correlation_id = ''c0ffee00-0000-4000-8000-000000000000''\<rparr>),
      Finished (Inr \<lparr>status = ''accepted'', message = ''Telemetry ingested successfully'',
                     correlation_id = ''c0ffee00-0000-4000-8000-000000000000''\<rparr>)]
   \<and> accepted_count
        (snd (run_schedule app_init
                (arrive [(example_message ''device-001'' 7, example_request 1000),
                         (example_message ''device-001'' 7, example_request 1000)])
                [0, 1, 0, 1])) = 2
   \<and> duplicate_count
        (snd (run_schedule app_init
                (arrive [(example_message ''device-001'' 7, example_request 1000),
                         (example_message ''device-001'' 7, example_request 1000)])
                [0, 1, 0, 1])) = 0"
  by (simp add: arrive_def worker_turn_def ingest_telemetry_check_def ingest_telemetry_accept_def
      has_seen_def cleanup_def mark_seen_def example_message_def example_request_def
      app_init_def MessageCache_init_def Metrics_init_def OVERLOAD_PROBABILITY_def
      accepted_count_def duplicate_count_def is_accepted_def is_duplicate_def Let_def)

section \<open>Properties of the retry loop\<close>

lemma calculate_backoff_ok:
  assumes "attempt < 1024"
  shows "calculate_backoff attempt env w =
     (Inr (backoff_delay attempt (rnd env (rand_calls w))), w\<lparr>rand_calls := rand_calls w + 1\<rparr>)"
  using assms
  by (simp add: calculate_backoff_def backoff_delay_def random_uniform_def random_random_def Let_def)

lemma backoff_retry:
  assumes "attempt < MAX_RETRIES"
  shows "backoff_or_give_up in_try env attempt w =
           (Inr None,
            w\<lparr>rand_calls := rand_calls w + 1,
              trace := trace w @ [Sleep (backoff_delay (int attempt) (rnd env (rand_calls w)))]\<rparr>)"
proof -
  have "int attempt < 1024" using assms by (simp add: MAX_RETRIES_def)
  then show ?thesis
    using assms
    by (simp add: backoff_or_give_up_def calculate_backoff_ok time_sleep_def)
qed

lemma backoff_give_up:
  assumes "\<not> attempt < MAX_RETRIES"
  shows "backoff_or_give_up in_try env attempt w = (Inr (Some False), w)"
  using assms by (simp add: backoff_or_give_up_def)

lemma send_attempt_transient_retry:
  assumes "transient_result (net env (post_calls w))" and "attempt < MAX_RETRIES"
  shows "send_attempt env t attempt w =
           (Inr None,
            w\<lparr>post_calls := post_calls w + 1, rand_calls := rand_calls w + 1,
              trace := trace w @ [Post t, Sleep (backoff_delay (int attempt) (rnd env (rand_calls w)))]\<rparr>)"
  using assms
  by (cases "net env (post_calls w)")
     (auto simp: send_attempt_def requests_post_def transient_result_def backoff_retry)

lemma send_attempt_transient_last:
  assumes "transient_result (net env (post_calls w))" and "\<not> attempt < MAX_RETRIES"
  shows "send_attempt env t attempt w =
           (Inr (Some False), w\<lparr>post_calls := post_calls w + 1, trace := trace w @ [Post t]\<rparr>)"
  using assms
  by (cases "net env (post_calls w)")
     (auto simp: send_attempt_def requests_post_def transient_result_def backoff_give_up)

lemma send_attempt_not_transient:
  assumes "\<not> transient_result (net env (post_calls w))"
    and "\<not> uncaught_result (net env (post_calls w))"
  shows "send_attempt env t attempt w =
           (Inr (Some (case net env (post_calls w) of
                         Response sc b \<Rightarrow> sc = 200 \<and> b = JsonObject \<or> sc = 409
                       | Raises e \<Rightarrow> False)),
            w\<lparr>post_calls := post_calls w + 1, trace := trace w @ [Post t]\<rparr>)"
  using assms
  by (cases "net env (post_calls w)")
     (auto simp: send_attempt_def requests_post_def transient_result_def uncaught_result_def
        split: body.splits)

lemma send_attempt_uncaught:
  assumes "net env (post_calls w) = Raises e" and "\<not> is_Exception e"
  shows "send_attempt env t attempt w =
           (Inl e, w\<lparr>post_calls := post_calls w + 1, trace := trace w @ [Post t]\<rparr>)"
  using assms by (cases e) (simp_all add: send_attempt_def requests_post_def)

lemma send_attempt_cases:
  obtains (retry) "transient_result (net env (post_calls w))" "attempt < MAX_RETRIES"
      "send_attempt env t attempt w =
           (Inr None,
            w\<lparr>post_calls := post_calls w + 1, rand_calls := rand_calls w + 1,
              trace := trace w @ [Post t, Sleep (backoff_delay (int attempt) (rnd env (rand_calls w)))]\<rparr>)"
  | (final) r where "send_attempt env t attempt w =
           (Inr (Some r), w\<lparr>post_calls := post_calls w + 1, trace := trace w @ [Post t]\<rparr>)"
    "transient_result (net env (post_calls w)) \<longrightarrow> \<not> attempt < MAX_RETRIES \<and> \<not> r"
  | (raised) e where "uncaught_result (net env (post_calls w))"
      "send_attempt env t attempt w =
           (Inl e, w\<lparr>post_calls := post_calls w + 1, trace := trace w @ [Post t]\<rparr>)"
proof (cases "uncaught_result (net env (post_calls w))")
  case True
  then obtain e where "net env (post_calls w) = Raises e" "\<not> is_Exception e"
    by (auto simp: uncaught_result_def split: transport_result.splits)
  then show ?thesis
    using raised [of e] True send_attempt_uncaught by blast
next
  case False
  then show ?thesis
    using retry final send_attempt_transient_retry send_attempt_transient_last
      send_attempt_not_transient
    by (cases "transient_result (net env (post_calls w))"; cases "attempt < MAX_RETRIES") blast+
qed

text \<open>
  What a call of the loop does to the world, and that it returns a value unless the transport
  raises an exception that is not caught.
\<close>

lemma send_loop_shape:
  "\<exists>r evs. send_loop env t attempt w =
            (r, w\<lparr>post_calls := post_calls w + length (filter is_Post evs),
                  rand_calls := rand_calls w + length (filter is_Sleep evs),
                  trace := trace w @ evs\<rparr>)
          \<and> (\<forall>e \<in> set evs. e = Post t \<or> is_Sleep e)
          \<and> ((\<forall>n. \<not> uncaught_result (net env n)) \<longrightarrow> (\<exists>b. r = Inr b))"
proof (induction "MAX_RETRIES + 1 - attempt" arbitrary: attempt w)
  case 0
  then have "send_loop env t attempt w = (Inr False, w)"
    by (simp add: send_loop.simps)
  then show ?case
    by (intro exI [of _ "Inr False"] exI [of _ "[]"]) auto
next
  case (Suc n)
  then have run: "\<not> MAX_RETRIES + 1 \<le> attempt" by simp
  show ?case
  proof (cases rule: send_attempt_cases [where env=env and w=w and attempt=attempt and t=t])
    case retry
    let ?b = "Sleep (backoff_delay (int attempt) (rnd env (rand_calls w)))"
    let ?w' = "w\<lparr>post_calls := post_calls w + 1, rand_calls := rand_calls w + 1,
              trace := trace w @ [Post t, ?b]\<rparr>"
    have "n = MAX_RETRIES + 1 - (attempt + 1)" using Suc.hyps(2) by simp
    from Suc.hyps(1) [OF this, of ?w'] obtain r evs where
      rec: "send_loop env t (attempt + 1) ?w' =
            (r, ?w'\<lparr>post_calls := post_calls ?w' + length (filter is_Post evs),
                    rand_calls := rand_calls ?w' + length (filter is_Sleep evs),
                    trace := trace ?w' @ evs\<rparr>)"
      and evs: "\<forall>e \<in> set evs. e = Post t \<or> is_Sleep e"
      and ret: "(\<forall>n. \<not> uncaught_result (net env n)) \<longrightarrow> (\<exists>b. r = Inr b)"
      by blast
    have "send_loop env t attempt w = send_loop env t (attempt + 1) ?w'"
      using run retry(3) by (subst send_loop.simps) simp
    then show ?thesis
      using rec evs ret
      by (intro exI [of _ r] exI [of _ "Post t # ?b # evs"]) auto
  next
    case (final r)
    have "send_loop env t attempt w =
        (Inr r, w\<lparr>post_calls := post_calls w + 1, trace := trace w @ [Post t]\<rparr>)"
      using run final(1) by (subst send_loop.simps) simp
    then show ?thesis
      by (intro exI [of _ "Inr r"] exI [of _ "[Post t]"]) auto
  next
    case (raised e)
    have "send_loop env t attempt w =
        (Inl e, w\<lparr>post_calls := post_calls w + 1, trace := trace w @ [Post t]\<rparr>)"
      using run raised(2) by (subst send_loop.simps) simp
    then show ?thesis
      using raised(1)
      by (intro exI [of _ "Inl e"] exI [of _ "[Post t]"]) auto
  qed
qed

lemma send_loop_all_transient:
  assumes "\<forall>n. transient_result (net env n)" and "attempt \<le> MAX_RETRIES"
  shows "send_loop env t attempt w =
     (Inr False,
      w\<lparr>post_calls := post_calls w + (MAX_RETRIES + 1 - attempt),
        rand_calls := rand_calls w + (MAX_RETRIES - attempt),
        trace := trace w
          @ concat (map (\<lambda>a. [Post t,
                               Sleep (backoff_delay (int a) (rnd env (rand_calls w + (a - attempt))))])
                      [attempt..<MAX_RETRIES])
          @ [Post t]\<rparr>)"
  using assms(2)
proof (induction "MAX_RETRIES - attempt" arbitrary: attempt w)
  case 0
  then have last: "\<not> attempt < MAX_RETRIES" and run: "\<not> MAX_RETRIES + 1 \<le> attempt"
    and eq: "attempt = MAX_RETRIES"
    by simp_all
  have "send_loop env t attempt w =
      (Inr False, w\<lparr>post_calls := post_calls w + 1, trace := trace w @ [Post t]\<rparr>)"
    using run send_attempt_transient_last [OF _ last, of env w t] assms(1)
    by (subst send_loop.simps) simp
  then show ?case using eq by simp
next
  case (Suc n)
  then have more: "attempt < MAX_RETRIES" and run: "\<not> MAX_RETRIES + 1 \<le> attempt"
    by simp_all
  let ?b = "Sleep (backoff_delay (int attempt) (rnd env (rand_calls w)))"
  let ?w' = "w\<lparr>post_calls := post_calls w + 1, rand_calls := rand_calls w + 1,
            trace := trace w @ [Post t, ?b]\<rparr>"
  have step: "send_loop env t attempt w = send_loop env t (attempt + 1) ?w'"
    using run send_attempt_transient_retry [OF _ more, of env w t] assms(1)
    by (subst send_loop.simps) simp
  have n: "n = MAX_RETRIES - (attempt + 1)" and le: "attempt + 1 \<le> MAX_RETRIES"
    using Suc.hyps(2) by simp_all
  have upt: "[attempt..<MAX_RETRIES] = attempt # [attempt + 1..<MAX_RETRIES]"
    using more by (simp add: upt_conv_Cons)
  have same: "map (\<lambda>a. [Post t, Sleep (backoff_delay (int a) (rnd env (rand_calls ?w' + (a - (attempt + 1)))))])
                [attempt + 1..<MAX_RETRIES]
      = map (\<lambda>a. [Post t, Sleep (backoff_delay (int a) (rnd env (rand_calls w + (a - attempt))))])
                [attempt + 1..<MAX_RETRIES]"
  proof (rule map_cong [OF refl])
    fix a
    assume "a \<in> set [attempt + 1..<MAX_RETRIES]"
    then have "attempt + 1 \<le> a"
      by simp
    then have "rand_calls ?w' + (a - (attempt + 1)) = rand_calls w + (a - attempt)"
      by simp
    then show "[Post t, Sleep (backoff_delay (int a) (rnd env (rand_calls ?w' + (a - (attempt + 1)))))]
        = [Post t, Sleep (backoff_delay (int a) (rnd env (rand_calls w + (a - attempt))))]"
      by (simp only:)
  qed
  show ?case
    unfolding step Suc.hyps(1) [OF n le, of ?w'] upt same
    using more by simp
qed

text \<open>
  Claim C3. When every transmission has a transient result, \<^verbatim>\<open>send_with_retry\<close> returns
  \<^verbatim>\<open>False\<close> after exactly \<open>MAX_RETRIES + 1\<close> calls of \<^verbatim>\<open>requests.post\<close> and exactly
  \<open>MAX_RETRIES\<close> backoff sleeps: a transmission and a sleep for each of the attempts
  \<open>0, \<dots>, MAX_RETRIES - 1\<close>, then the last transmission, with no sleep after it.
\<close>

theorem all_transient_exhausts_retries:
  assumes "\<forall>n. transient_result (net env n)"
  shows "fst (send_with_retry env t w) = Inr False
     \<and> events_since w (snd (send_with_retry env t w)) =
         concat (map (\<lambda>a. [Post t, Sleep (backoff_delay (int a) (rnd env (rand_calls w + a)))])
                   [0..<MAX_RETRIES]) @ [Post t]
     \<and> length (filter is_Post (events_since w (snd (send_with_retry env t w)))) = MAX_RETRIES + 1
     \<and> length (filter is_Sleep (events_since w (snd (send_with_retry env t w)))) = MAX_RETRIES
     \<and> last (events_since w (snd (send_with_retry env t w))) = Post t
     \<and> post_calls (snd (send_with_retry env t w)) = post_calls w + (MAX_RETRIES + 1)"
proof -
  let ?evs = "concat (map (\<lambda>a. [Post t, Sleep (backoff_delay (int a) (rnd env (rand_calls w + a)))])
                   [0..<MAX_RETRIES]) @ [Post t]"
  have run: "send_with_retry env t w =
      (Inr False, w\<lparr>post_calls := post_calls w + (MAX_RETRIES + 1),
                    rand_calls := rand_calls w + MAX_RETRIES, trace := trace w @ ?evs\<rparr>)"
    unfolding send_with_retry_def
    using send_loop_all_transient [OF assms, of 0 t w] by simp
  have evs: "events_since w (snd (send_with_retry env t w)) = ?evs"
    unfolding run by (simp add: events_since_def)
  have posts: "length (filter is_Post (concat (map (\<lambda>a. [Post t, Sleep (f a)]) xs))) = length xs"
    for f :: "nat \<Rightarrow> real" and xs
    by (induction xs) simp_all
  have sleeps: "length (filter is_Sleep (concat (map (\<lambda>a. [Post t, Sleep (f a)]) xs))) = length xs"
    for f :: "nat \<Rightarrow> real" and xs
    by (induction xs) simp_all
  show ?thesis
    unfolding evs using run by (simp add: posts sleeps)
qed

text \<open>A service that always answers 503, with every random sample 1/2.\<close>

theorem all_transient_exhausts_retries_witness:
  "fst (send_with_retry (example_env (\<lambda>n. 1 / 2) (\<lambda>n. Response 503 JsonObject))
          (example_telemetry 0) world_init) = Inr False
   \<and> trace (snd (send_with_retry (example_env (\<lambda>n. 1 / 2) (\<lambda>n. Response 503 JsonObject))
                   (example_telemetry 0) world_init)) =
       [Post (example_telemetry 0), Sleep 1, Post (example_telemetry 0), Sleep 2,
        Post (example_telemetry 0), Sleep 4, Post (example_telemetry 0), Sleep 8,
        Post (example_telemetry 0), Sleep 16, Post (example_telemetry 0)]"
proof -
  have tr: "\<forall>n. transient_result (net (example_env (\<lambda>n. 1 / 2) (\<lambda>n. Response 503 JsonObject)) n)"
    by (simp add: example_env_def transient_result_def is_transient_error_def)
  have upt: "[0..<MAX_RETRIES] = [0, 1, 2, 3, 4]"
    by (simp add: MAX_RETRIES_def upt_rec)
  show ?thesis
    using all_transient_exhausts_retries [OF tr, of "example_telemetry 0" world_init]
    by (simp add: upt events_since_def world_init_def example_env_def backoff_delay_def pow2_def
        BASE_BACKOFF_SECONDS_def MAX_BACKOFF_SECONDS_def BACKOFF_JITTER_RANGE_def)
qed

section \<open>Properties of the backoff\<close>

text \<open>
  Claim C8, as the code has it. For every attempt from 0 to 1023 and every sample of
  \<^verbatim>\<open>random.random()\<close> between 0 and 1, \<^verbatim>\<open>calculate_backoff\<close> returns
  \<open>max 0.1 (backoff + jitter)\<close>, where \<open>backoff\<close> is
  \<open>min (BASE_BACKOFF_SECONDS * 2 ^ attempt) MAX_BACKOFF_SECONDS\<close> and \<open>jitter\<close> is within 50% of
  \<open>backoff\<close> on either side, and the delay lies between 0.1 and
  \<open>MAX_BACKOFF_SECONDS * 1.5 = 45\<close>.
\<close>

theorem calculate_backoff_in_range:
  assumes "0 \<le> attempt" and "attempt < 1024"
    and "0 \<le> rnd env (rand_calls w)" and "rnd env (rand_calls w) \<le> 1"
  shows "\<exists>backoff jitter.
           backoff = min (BASE_BACKOFF_SECONDS * 2 ^ nat attempt) MAX_BACKOFF_SECONDS
         \<and> \<bar>jitter\<bar> \<le> backoff * BACKOFF_JITTER_RANGE
         \<and> fst (calculate_backoff attempt env w) = Inr (max (1 / 10) (backoff + jitter))
         \<and> 1 / 10 \<le> max (1 / 10) (backoff + jitter)
         \<and> max (1 / 10) (backoff + jitter) \<le> MAX_BACKOFF_SECONDS * (3 / 2)
         \<and> MAX_BACKOFF_SECONDS * (3 / 2) = 45"
proof -
  define b where "b = min (BASE_BACKOFF_SECONDS * 2 ^ nat attempt) MAX_BACKOFF_SECONDS"
  define u where "u = - BACKOFF_JITTER_RANGE
            + (BACKOFF_JITTER_RANGE - - BACKOFF_JITTER_RANGE) * rnd env (rand_calls w)"
  have b0: "0 \<le> b" and b30: "b \<le> 30"
    by (simp_all add: b_def BASE_BACKOFF_SECONDS_def MAX_BACKOFF_SECONDS_def)
  have u: "\<bar>u\<bar> \<le> 1 / 2"
    using assms(3,4) unfolding u_def BACKOFF_JITTER_RANGE_def by (auto simp: abs_if)
  have "\<bar>b * u\<bar> = b * \<bar>u\<bar>"
    using b0 by (simp add: abs_mult)
  also have "\<dots> \<le> b * (1 / 2)"
    using b0 u by (rule mult_left_mono [OF _ _, rotated])
  finally have j: "\<bar>b * u\<bar> \<le> b * (1 / 2)" .
  have val: "fst (calculate_backoff attempt env w) = Inr (max (1 / 10) (b + b * u))"
    using assms(1,2)
    by (simp add: calculate_backoff_ok backoff_delay_def pow2_def Let_def b_def u_def)
  have "b + b * u \<le> b + b * (1 / 2)"
    using j by linarith
  also have "\<dots> \<le> 45"
    using b30 by simp
  finally have up: "max (1 / 10) (b + b * u) \<le> 45"
    by simp
  have "b = min (BASE_BACKOFF_SECONDS * 2 ^ nat attempt) MAX_BACKOFF_SECONDS
      \<and> \<bar>b * u\<bar> \<le> b * BACKOFF_JITTER_RANGE
      \<and> fst (calculate_backoff attempt env w) = Inr (max (1 / 10) (b + b * u))
      \<and> 1 / 10 \<le> max (1 / 10) (b + b * u)
      \<and> max (1 / 10) (b + b * u) \<le> MAX_BACKOFF_SECONDS * (3 / 2)
      \<and> MAX_BACKOFF_SECONDS * (3 / 2) = 45"
    using j val up b_def
    by (simp add: MAX_BACKOFF_SECONDS_def BACKOFF_JITTER_RANGE_def)
  then show ?thesis by blast
qed

text \<open>Attempt 3 with the sample 1/4, and attempt 1023 with the sample 1.\<close>

theorem calculate_backoff_in_range_witness:
  "fst (calculate_backoff 3 (example_env (\<lambda>n. 1 / 4) (\<lambda>n. Response 503 JsonObject)) world_init)
     = Inr 6
   \<and> fst (calculate_backoff 1023 (example_env (\<lambda>n. 1) (\<lambda>n. Response 503 JsonObject)) world_init)
     = Inr 45"
  using calculate_backoff_in_range [where attempt=3 and w=world_init
      and env="example_env (\<lambda>n. 1 / 4) (\<lambda>n. Response 503 JsonObject)"]
    calculate_backoff_in_range [where attempt=1023 and w=world_init
      and env="example_env (\<lambda>n. 1) (\<lambda>n. Response 503 JsonObject)"]
  by (simp add: calculate_backoff_ok backoff_delay_def pow2_def example_env_def world_init_def
      BASE_BACKOFF_SECONDS_def MAX_BACKOFF_SECONDS_def BACKOFF_JITTER_RANGE_def)

text \<open>
  Claim C8 as stated fails from attempt 1024 on: the product
  \<^verbatim>\<open>BASE_BACKOFF_SECONDS * (2 ** attempt)\<close> raises \<^verbatim>\<open>OverflowError\<close> and no delay is
  returned.
\<close>

theorem calculate_backoff_overflow:
  "calculate_backoff 1024 (example_env (\<lambda>n. 1 / 2) (\<lambda>n. Response 503 JsonObject)) world_init
     = (Inl OverflowError, world_init)"
  by (simp add: calculate_backoff_def)

section \<open>Properties of the error classification\<close>

lemma send_loop_not_transient:
  assumes "attempt \<le> MAX_RETRIES"
    and "\<not> transient_result (net env (post_calls w))"
    and "\<not> uncaught_result (net env (post_calls w))"
  shows "send_loop env t attempt w =
           (Inr (case net env (post_calls w) of
                   Response sc b \<Rightarrow> sc = 200 \<and> b = JsonObject \<or> sc = 409
                 | Raises e \<Rightarrow> False),
            w\<lparr>post_calls := post_calls w + 1, trace := trace w @ [Post t]\<rparr>)"
  using assms(1)
  by (subst send_loop.simps) (simp add: send_attempt_not_transient [OF assms(2,3)])

lemma send_loop_uncaught:
  assumes "attempt \<le> MAX_RETRIES"
    and "net env (post_calls w) = Raises e" and "\<not> is_Exception e"
  shows "send_loop env t attempt w =
           (Inl e, w\<lparr>post_calls := post_calls w + 1, trace := trace w @ [Post t]\<rparr>)"
  using assms(1)
  by (subst send_loop.simps) (simp add: send_attempt_uncaught [OF assms(2,3)])

lemma send_loop_transient_retry:
  assumes "transient_result (net env (post_calls w))" and "attempt < MAX_RETRIES"
  shows "send_loop env t attempt w =
           send_loop env t (attempt + 1)
             (w\<lparr>post_calls := post_calls w + 1, rand_calls := rand_calls w + 1,
                trace := trace w
                  @ [Post t, Sleep (backoff_delay (int attempt) (rnd env (rand_calls w)))]\<rparr>)"
  using assms(2)
  by (subst send_loop.simps) (simp add: send_attempt_transient_retry [OF assms])

lemma send_loop_transient_last:
  assumes "transient_result (net env (post_calls w))"
  shows "send_loop env t MAX_RETRIES w =
           (Inr False, w\<lparr>post_calls := post_calls w + 1, trace := trace w @ [Post t]\<rparr>)"
proof -
  have last: "\<not> MAX_RETRIES < MAX_RETRIES" by simp
  show ?thesis
    by (subst send_loop.simps) (simp add: send_attempt_transient_last [OF assms last])
qed

text \<open>
  What the loop makes of each result of the transport, at every attempt \<open>0, \<dots>, MAX_RETRIES\<close>,
  the world \<open>w\<close> being the one the attempt starts in. The statuses 429, 503 and 504 and the
  exceptions \<^verbatim>\<open>Timeout\<close> and \<^verbatim>\<open>ConnectionError\<close> are transient for \<^verbatim>\<open>is_transient_error\<close>:
  after them the loop sleeps for the backoff and goes on with the next attempt, or returns
  \<^verbatim>\<open>False\<close> when the attempt was the last. The statuses 400, 401 and 403, every status
  outside 200, 409, 429, 503 and 504, and every other instance of \<^verbatim>\<open>Exception\<close> are not
  transient and return \<^verbatim>\<open>False\<close> at once. Status 409, and status 200 with a body that
  \<^verbatim>\<open>response.json()\<close> reads as a JSON object, return \<^verbatim>\<open>True\<close> at once; status 200 with
  any other body returns \<^verbatim>\<open>False\<close>. An exception that is not an instance of
  \<^verbatim>\<open>Exception\<close> leaves the function.
\<close>

theorem error_classification:
  "(sc \<in> {429, 503, 504} \<longrightarrow>
      is_transient_error (Some sc) None \<and> transient_result (Response sc b))
   \<and> (e \<in> {Timeout, ConnectTimeout, ConnectionError} \<longrightarrow>
      is_transient_error code (Some e) \<and> transient_result (Raises e))
   \<and> (transient_result (net env (post_calls w)) \<and> attempt < MAX_RETRIES \<longrightarrow>
      send_loop env t attempt w =
        send_loop env t (attempt + 1)
          (w\<lparr>post_calls := post_calls w + 1, rand_calls := rand_calls w + 1,
             trace := trace w
               @ [Post t, Sleep (backoff_delay (int attempt) (rnd env (rand_calls w)))]\<rparr>))
   \<and> (transient_result (net env (post_calls w)) \<and> attempt = MAX_RETRIES \<longrightarrow>
      send_loop env t attempt w =
        (Inr False, w\<lparr>post_calls := post_calls w + 1, trace := trace w @ [Post t]\<rparr>))
   \<and> (sc \<in> {400, 401, 403} \<longrightarrow>
      \<not> is_transient_error (Some sc) None
      \<and> (attempt \<le> MAX_RETRIES \<and> net env (post_calls w) = Response sc b \<longrightarrow>
           send_loop env t attempt w =
             (Inr False, w\<lparr>post_calls := post_calls w + 1, trace := trace w @ [Post t]\<rparr>)))
   \<and> (attempt \<le> MAX_RETRIES
      \<and> (net env (post_calls w) = Response 200 JsonObject
         \<or> net env (post_calls w) = Response 409 b)
      \<longrightarrow> send_loop env t attempt w =
             (Inr True, w\<lparr>post_calls := post_calls w + 1, trace := trace w @ [Post t]\<rparr>))
   \<and> (attempt \<le> MAX_RETRIES \<and> net env (post_calls w) = Response 200 b \<and> b \<noteq> JsonObject
      \<longrightarrow> send_loop env t attempt w =
             (Inr False, w\<lparr>post_calls := post_calls w + 1, trace := trace w @ [Post t]\<rparr>))
   \<and> (sc \<notin> {200, 409, 429, 503, 504} \<longrightarrow>
      \<not> is_transient_error (Some sc) None
      \<and> (attempt \<le> MAX_RETRIES \<and> net env (post_calls w) = Response sc b \<longrightarrow>
           send_loop env t attempt w =
             (Inr False, w\<lparr>post_calls := post_calls w + 1, trace := trace w @ [Post t]\<rparr>)))
   \<and> (e \<notin> {Timeout, ConnectTimeout, ConnectionError} \<longrightarrow>
      \<not> is_transient_error code (Some e)
      \<and> (attempt \<le> MAX_RETRIES \<and> net env (post_calls w) = Raises e \<longrightarrow>
           send_loop env t attempt w =
             (if is_Exception e then Inr False else Inl e,
              w\<lparr>post_calls := post_calls w + 1, trace := trace w @ [Post t]\<rparr>)))"
proof (intro conjI impI)
  let ?one = "w\<lparr>post_calls := post_calls w + 1, trace := trace w @ [Post t]\<rparr>"
  show "is_transient_error (Some sc) None" if "sc \<in> {429, 503, 504}"
    using that by (auto simp: is_transient_error_def)
  show "transient_result (Response sc b)" if "sc \<in> {429, 503, 504}"
    using that by (auto simp: transient_result_def is_transient_error_def)
  show "is_transient_error code (Some e)" if "e \<in> {Timeout, ConnectTimeout, ConnectionError}"
    using that by (auto simp: is_transient_error_def)
  show "transient_result (Raises e)" if "e \<in> {Timeout, ConnectTimeout, ConnectionError}"
    using that by (auto simp: transient_result_def)
  show "send_loop env t attempt w =
        send_loop env t (attempt + 1)
          (w\<lparr>post_calls := post_calls w + 1, rand_calls := rand_calls w + 1,
             trace := trace w
               @ [Post t, Sleep (backoff_delay (int attempt) (rnd env (rand_calls w)))]\<rparr>)"
    if "transient_result (net env (post_calls w)) \<and> attempt < MAX_RETRIES"
    using that send_loop_transient_retry by blast
  show "send_loop env t attempt w = (Inr False, ?one)"
    if "transient_result (net env (post_calls w)) \<and> attempt = MAX_RETRIES"
    using that send_loop_transient_last by auto
  show "\<not> is_transient_error (Some sc) None" if "sc \<in> {400, 401, 403}"
    using that by (auto simp: is_transient_error_def)
  show "send_loop env t attempt w = (Inr False, ?one)"
    if "sc \<in> {400, 401, 403}"
      and "attempt \<le> MAX_RETRIES \<and> net env (post_calls w) = Response sc b"
  proof -
    have "\<not> transient_result (net env (post_calls w))"
      and "\<not> uncaught_result (net env (post_calls w))"
      using that by (auto simp: transient_result_def uncaught_result_def is_transient_error_def)
    from send_loop_not_transient [OF _ this] show ?thesis
      using that by auto
  qed
  show "send_loop env t attempt w = (Inr True, ?one)"
    if "attempt \<le> MAX_RETRIES
      \<and> (net env (post_calls w) = Response 200 JsonObject
         \<or> net env (post_calls w) = Response 409 b)"
  proof -
    have "\<not> transient_result (net env (post_calls w))"
      and "\<not> uncaught_result (net env (post_calls w))"
      using that by (auto simp: transient_result_def uncaught_result_def)
    from send_loop_not_transient [OF _ this] show ?thesis
      using that by auto
  qed
  show "send_loop env t attempt w = (Inr False, ?one)"
    if "attempt \<le> MAX_RETRIES \<and> net env (post_calls w) = Response 200 b \<and> b \<noteq> JsonObject"
  proof -
    have "\<not> transient_result (net env (post_calls w))"
      and "\<not> uncaught_result (net env (post_calls w))"
      using that by (auto simp: transient_result_def uncaught_result_def)
    from send_loop_not_transient [OF _ this] show ?thesis
      using that by auto
  qed
  show "\<not> is_transient_error (Some sc) None" if "sc \<notin> {200, 409, 429, 503, 504}"
    using that by (auto simp: is_transient_error_def)
  show "send_loop env t attempt w = (Inr False, ?one)"
    if "sc \<notin> {200, 409, 429, 503, 504}"
      and "attempt \<le> MAX_RETRIES \<and> net env (post_calls w) = Response sc b"
  proof -
    have "\<not> transient_result (net env (post_calls w))"
      and "\<not> uncaught_result (net env (post_calls w))"
      using that by (auto simp: transient_result_def uncaught_result_def is_transient_error_def)
    from send_loop_not_transient [OF _ this] show ?thesis
      using that by auto
  qed
  show "\<not> is_transient_error code (Some e)" if "e \<notin> {Timeout, ConnectTimeout, ConnectionError}"
    using that by (auto simp: is_transient_error_def)
  show "send_loop env t attempt w = (if is_Exception e then Inr False else Inl e, ?one)"
    if "e \<notin> {Timeout, ConnectTimeout, ConnectionError}"
      and "attempt \<le> MAX_RETRIES \<and> net env (post_calls w) = Raises e"
  proof (cases "is_Exception e")
    case True
    have "\<not> transient_result (net env (post_calls w))"
      and "\<not> uncaught_result (net env (post_calls w))"
      using that True by (auto simp: transient_result_def uncaught_result_def)
    from send_loop_not_transient [OF _ this] show ?thesis
      using that True by auto
  next
    case False
    then show ?thesis
      using that send_loop_uncaught by auto
  qed
qed

text \<open>
  A service for each class of result, once at the first attempt and once at the third, which
  follows two answers 503.
\<close>

theorem error_classification_witness:
  "is_transient_error (Some 503) None
   \<and> is_transient_error None (Some Timeout)
   \<and> fst (send_with_retry (example_env (\<lambda>n. 1 / 2) (\<lambda>n. Response 400 JsonObject))
            (example_telemetry 0) world_init) = Inr False
   \<and> fst (send_with_retry (example_env (\<lambda>n. 1 / 2) (\<lambda>n. Response 200 JsonObject))
            (example_telemetry 0) world_init) = Inr True
   \<and> fst (send_with_retry (example_env (\<lambda>n. 1 / 2) (\<lambda>n. Response 200 JsonNotObject))
            (example_telemetry 0) world_init) = Inr False
   \<and> fst (send_with_retry (example_env (\<lambda>n. 1 / 2) (\<lambda>n. Response 500 JsonObject))
            (example_telemetry 0) world_init) = Inr False
   \<and> fst (send_with_retry (example_env (\<lambda>n. 1 / 2) (\<lambda>n. Raises OtherException))
            (example_telemetry 0) world_init) = Inr False
   \<and> fst (send_with_retry (example_env (\<lambda>n. 1 / 2) (\<lambda>n. Raises KeyboardInterrupt))
            (example_telemetry 0) world_init) = Inl KeyboardInterrupt
   \<and> fst (send_with_retry
            (example_env (\<lambda>n. 1 / 2)
               (\<lambda>n. if n < 2 then Response 503 JsonObject else Response 409 InvalidJson))
            (example_telemetry 0) world_init) = Inr True"
proof -
  let ?t = "example_telemetry 0"
  have le: "0 \<le> MAX_RETRIES" "2 \<le> MAX_RETRIES" "0 < MAX_RETRIES" "1 < MAX_RETRIES"
    by (simp_all add: MAX_RETRIES_def)
  have a: "is_transient_error (Some 503) None \<and> is_transient_error None (Some Timeout)"
    using error_classification [where sc=503 and e=Timeout and code=None] by simp
  have b: "fst (send_with_retry (example_env (\<lambda>n. 1 / 2) (\<lambda>n. Response 400 JsonObject))
            ?t world_init) = Inr False"
    using error_classification [where sc=400 and b=JsonObject and attempt=0
        and env="example_env (\<lambda>n. 1 / 2) (\<lambda>n. Response 400 JsonObject)"
        and w=world_init and t="?t"]
    by (simp add: example_env_def send_with_retry_def)
  have c: "fst (send_with_retry (example_env (\<lambda>n. 1 / 2) (\<lambda>n. Response 200 JsonObject))
            ?t world_init) = Inr True"
    using error_classification [where attempt=0
        and env="example_env (\<lambda>n. 1 / 2) (\<lambda>n. Response 200 JsonObject)"
        and w=world_init and t="?t"]
    by (simp add: example_env_def send_with_retry_def)
  have d: "fst (send_with_retry (example_env (\<lambda>n. 1 / 2) (\<lambda>n. Response 200 JsonNotObject))
            ?t world_init) = Inr False"
    using error_classification [where b=JsonNotObject and attempt=0
        and env="example_env (\<lambda>n. 1 / 2) (\<lambda>n. Response 200 JsonNotObject)"
        and w=world_init and t="?t"]
    by (simp add: example_env_def send_with_retry_def)
  have e: "fst (send_with_retry (example_env (\<lambda>n. 1 / 2) (\<lambda>n. Response 500 JsonObject))
            ?t world_init) = Inr False"
    using error_classification [where sc=500 and b=JsonObject and attempt=0
        and env="example_env (\<lambda>n. 1 / 2) (\<lambda>n. Response 500 JsonObject)"
        and w=world_init and t="?t"]
    by (simp add: example_env_def send_with_retry_def)
  have f: "fst (send_with_retry (example_env (\<lambda>n. 1 / 2) (\<lambda>n. Raises OtherException))
            ?t world_init) = Inr False"
    using error_classification [where e=OtherException and attempt=0
        and env="example_env (\<lambda>n. 1 / 2) (\<lambda>n. Raises OtherException)"
        and w=world_init and t="?t"]
    by (simp add: example_env_def send_with_retry_def)
  have g: "fst (send_with_retry (example_env (\<lambda>n. 1 / 2) (\<lambda>n. Raises KeyboardInterrupt))
            ?t world_init) = Inl KeyboardInterrupt"
    using error_classification [where e=KeyboardInterrupt and attempt=0
        and env="example_env (\<lambda>n. 1 / 2) (\<lambda>n. Raises KeyboardInterrupt)"
        and w=world_init and t="?t"]
    by (simp add: example_env_def send_with_retry_def)
  let ?env = "example_env (\<lambda>n. 1 / 2)
      (\<lambda>n. if n < 2 then Response 503 JsonObject else Response 409 InvalidJson)"
  let ?w1 = "world_init\<lparr>post_calls := 1, rand_calls := 1,
      trace := [Post ?t, Sleep (backoff_delay 0 (1 / 2))]\<rparr>"
  let ?w2 = "?w1\<lparr>post_calls := 2, rand_calls := 2,
      trace := [Post ?t, Sleep (backoff_delay 0 (1 / 2)), Post ?t, Sleep (backoff_delay 1 (1 / 2))]\<rparr>"
  have tr: "transient_result (Response 503 JsonObject)"
    by (simp add: transient_result_def is_transient_error_def)
  have s0: "send_loop ?env ?t 0 world_init = send_loop ?env ?t 1 ?w1"
    using error_classification [where attempt=0 and env="?env" and w=world_init and t="?t"] tr le
    by (simp add: example_env_def world_init_def)
  have s1: "send_loop ?env ?t 1 ?w1 = send_loop ?env ?t 2 ?w2"
    using error_classification [where attempt=1 and env="?env" and w="?w1" and t="?t"] tr le
    by (simp add: example_env_def world_init_def numeral_2_eq_2)
  have s2: "fst (send_loop ?env ?t 2 ?w2) = Inr True"
    using error_classification [where attempt=2 and env="?env" and w="?w2" and t="?t"
        and b=InvalidJson] le
    by (simp add: example_env_def world_init_def numeral_2_eq_2)
  have h: "fst (send_with_retry ?env ?t world_init) = Inr True"
    unfolding send_with_retry_def s0 s1 by (rule s2)
  show ?thesis using a b c d e f g h by blast
qed

text \<open>
  Claim C2. The classification holds as the claim states it except for status 200: there
  \<^verbatim>\<open>send_with_retry\<close> reads \<^verbatim>\<open>response.json()\<close> for a field of a log line before it
  returns \<^verbatim>\<open>True\<close>. When the body of the response is not JSON, that call raises inside
  the \<^verbatim>\<open>try\<close> block, \<^verbatim>\<open>except Exception\<close> catches the exception, and the function
  returns \<^verbatim>\<open>False\<close> after the one transmission, although the status is 200.
\<close>

theorem success_status_with_unreadable_body:
  "send_with_retry (example_env (\<lambda>n. 1 / 2) (\<lambda>n. Response 200 InvalidJson))
     (example_telemetry 0) world_init =
     (Inr False, world_init\<lparr>post_calls := 1, trace := [Post (example_telemetry 0)]\<rparr>)"
  unfolding send_with_retry_def
  by (subst send_loop.simps)
     (simp add: send_attempt_def requests_post_def example_env_def world_init_def MAX_RETRIES_def)

section \<open>Properties of the main loop\<close>

lemma send_with_retry_shape:
  "\<exists>r evs. send_with_retry env t w =
            (r, w\<lparr>post_calls := post_calls w + length (filter is_Post evs),
                  rand_calls := rand_calls w + length (filter is_Sleep evs),
                  trace := trace w @ evs\<rparr>)
          \<and> (\<forall>e \<in> set evs. e = Post t \<or> is_Sleep e)
          \<and> ((\<forall>n. \<not> uncaught_result (net env n)) \<longrightarrow> (\<exists>b. r = Inr b))"
  unfolding send_with_retry_def by (rule send_loop_shape)


lemma send_with_retry_trace:
  "\<exists>evs. trace (snd (send_with_retry env t w)) = trace w @ evs
         \<and> (\<forall>e \<in> set evs. e = Post t \<or> is_Sleep e)"
  using send_with_retry_shape [of env t w] by auto

lemma generate_telemetry_eq:
  "\<exists>t. generate_telemetry env s w = (t, w\<lparr>rand_calls := rand_calls w + 3\<rparr>) \<and> t_sequence_id t = s"
  by (simp add: generate_telemetry_def random_uniform_def random_random_def)

lemma simulate_packet_drop_eq:
  "simulate_packet_drop env w =
     (rnd env (rand_calls w) < PACKET_DROP_PROBABILITY,
      w\<lparr>rand_calls := rand_calls w + 1,
        trace := trace w @ [PacketDropDecision (rnd env (rand_calls w) < PACKET_DROP_PROBABILITY)]\<rparr>)"
  by (simp add: simulate_packet_drop_def random_random_def emit_def)

lemma simulate_duplicate_eq:
  "simulate_duplicate env w =
     (rnd env (rand_calls w) < DUPLICATE_PROBABILITY,
      w\<lparr>rand_calls := rand_calls w + 1,
        trace := trace w @ [DuplicateDecision (rnd env (rand_calls w) < DUPLICATE_PROBABILITY)]\<rparr>)"
  by (simp add: simulate_duplicate_def random_random_def emit_def)

lemma simulate_jitter_eq:
  "\<exists>evs. simulate_jitter env w =
      w\<lparr>rand_calls := rand_calls w + (if rnd env (rand_calls w) < JITTER_PROBABILITY then 2 else 1),
        trace := trace w @ JitterDecision (rnd env (rand_calls w) < JITTER_PROBABILITY) # evs\<rparr>
    \<and> (\<forall>e \<in> set evs. is_Sleep e)"
proof (cases "rnd env (rand_calls w) < JITTER_PROBABILITY")
  case True
  then have "simulate_jitter env w =
      w\<lparr>rand_calls := rand_calls w + 2,
        trace := trace w @ JitterDecision True
          # [Sleep (1 / 10 + (MAX_JITTER_SECONDS - 1 / 10) * rnd env (rand_calls w + 1))]\<rparr>"
    by (simp add: simulate_jitter_def random_uniform_def random_random_def emit_def time_sleep_def)
  then show ?thesis using True by (intro exI [of _ "[Sleep _]"]) simp
next
  case False
  then have "simulate_jitter env w =
      w\<lparr>rand_calls := rand_calls w + 1, trace := trace w @ JitterDecision False # []\<rparr>"
    by (simp add: simulate_jitter_def random_random_def emit_def)
  then show ?thesis using False by (intro exI [of _ "[]"]) simp
qed

lemma simulate_jitter_trace:
  "\<exists>evs. trace (simulate_jitter env w) =
           trace w @ JitterDecision (rnd env (rand_calls w) < JITTER_PROBABILITY) # evs
         \<and> (\<forall>e \<in> set evs. is_Sleep e)"
  using simulate_jitter_eq [of env w] by auto

text \<open>The pass through the body of the loop, by the values it goes through.\<close>

lemma main_cycle_worlds:
  assumes "generate_telemetry env s w = (t, w0)"
    and "simulate_packet_drop env w0 = (dropped, w1)"
    and "send_with_retry env t (simulate_jitter env w1) = (r, w3)"
    and "simulate_duplicate env w3 = (dup, w4)"
    and "send_with_retry env t (time_sleep (1 / 2) w4) = (r2, w5)"
  shows "dropped \<Longrightarrow>
           main_cycle env s w = (Inr (s + 1), time_sleep TELEMETRY_INTERVAL_SECONDS w1)"
    and "\<not> dropped \<Longrightarrow> r = Inl e \<Longrightarrow> main_cycle env s w = (Inl e, w3)"
    and "\<not> dropped \<Longrightarrow> r = Inr b \<Longrightarrow> \<not> dup \<Longrightarrow>
           main_cycle env s w = (Inr (s + 1), time_sleep TELEMETRY_INTERVAL_SECONDS w4)"
    and "\<not> dropped \<Longrightarrow> r = Inr b \<Longrightarrow> dup \<Longrightarrow> r2 = Inl e \<Longrightarrow>
           main_cycle env s w = (Inl e, w5)"
    and "\<not> dropped \<Longrightarrow> r = Inr b \<Longrightarrow> dup \<Longrightarrow> r2 = Inr b2 \<Longrightarrow>
           main_cycle env s w = (Inr (s + 1), time_sleep TELEMETRY_INTERVAL_SECONDS w5)"
  using assms by (simp_all add: main_cycle_def)

lemma sleep_is_no_decision: "is_Sleep e \<Longrightarrow> \<not> is_drop_or_jitter e"
  by (cases e) simp_all

lemma main_cycle_events:
  "\<exists>d rest. events_since w (snd (main_cycle env s w)) = PacketDropDecision d # rest
      \<and> (d \<longrightarrow> rest = [Sleep TELEMETRY_INTERVAL_SECONDS])
      \<and> (\<not> d \<longrightarrow> (\<exists>j rest'. rest = JitterDecision j # rest'
                      \<and> (\<forall>e \<in> set rest'. \<not> is_drop_or_jitter e)))"
proof -
  obtain t where gen: "generate_telemetry env s w = (t, w\<lparr>rand_calls := rand_calls w + 3\<rparr>)"
    using generate_telemetry_eq by blast
  let ?w0 = "w\<lparr>rand_calls := rand_calls w + 3\<rparr>"
  let ?d = "rnd env (rand_calls ?w0) < PACKET_DROP_PROBABILITY"
  let ?w1 = "?w0\<lparr>rand_calls := rand_calls ?w0 + 1, trace := trace ?w0 @ [PacketDropDecision ?d]\<rparr>"
  have drop: "simulate_packet_drop env ?w0 = (?d, ?w1)"
    by (rule simulate_packet_drop_eq)
  obtain r w3 where send: "send_with_retry env t (simulate_jitter env ?w1) = (r, w3)"
    by (cases "send_with_retry env t (simulate_jitter env ?w1)")
  let ?dup = "rnd env (rand_calls w3) < DUPLICATE_PROBABILITY"
  let ?w4 = "w3\<lparr>rand_calls := rand_calls w3 + 1, trace := trace w3 @ [DuplicateDecision ?dup]\<rparr>"
  have dup: "simulate_duplicate env w3 = (?dup, ?w4)"
    by (rule simulate_duplicate_eq)
  obtain r2 w5 where again: "send_with_retry env t (time_sleep (1 / 2) ?w4) = (r2, w5)"
    by (cases "send_with_retry env t (time_sleep (1 / 2) ?w4)")
  note worlds = main_cycle_worlds [OF gen drop send dup again]
  show ?thesis
  proof (cases ?d)
    case True
    have "events_since w (snd (main_cycle env s w))
        = PacketDropDecision True # [Sleep TELEMETRY_INTERVAL_SECONDS]"
      using worlds(1) [OF True] True by (simp add: events_since_def time_sleep_def)
    then show ?thesis by blast
  next
    case False
    obtain jevs where j: "trace (simulate_jitter env ?w1) =
          trace ?w1 @ JitterDecision (rnd env (rand_calls ?w1) < JITTER_PROBABILITY) # jevs"
      and jevs: "\<forall>e \<in> set jevs. is_Sleep e"
      using simulate_jitter_trace [of env ?w1] by blast
    obtain evs1 where s1: "trace w3 = trace (simulate_jitter env ?w1) @ evs1"
      and evs1: "\<forall>e \<in> set evs1. e = Post t \<or> is_Sleep e"
      using send_with_retry_trace [of env t "simulate_jitter env ?w1"] send by auto
    obtain evs2 where s2: "trace w5 = trace (time_sleep (1 / 2) ?w4) @ evs2"
      and evs2: "\<forall>e \<in> set evs2. e = Post t \<or> is_Sleep e"
      using send_with_retry_trace [of env t "time_sleep (1 / 2) ?w4"] again by auto
    let ?j = "rnd env (rand_calls ?w1) < JITTER_PROBABILITY"
    have tr3: "trace w3 = trace w @ PacketDropDecision False # JitterDecision ?j # jevs @ evs1"
      using False j s1 by simp
    have tr5: "trace w5 = trace w3 @ DuplicateDecision ?dup # Sleep (1 / 2) # evs2"
      using s2 by (simp add: time_sleep_def)
    have "\<exists>rest'. trace (snd (main_cycle env s w)) =
          trace w @ PacketDropDecision False # JitterDecision ?j # rest'
        \<and> (\<forall>e \<in> set rest'. \<not> is_drop_or_jitter e)"
    proof (cases r)
      case (Inl e)
      have "trace (snd (main_cycle env s w)) =
          trace w @ PacketDropDecision False # JitterDecision ?j # (jevs @ evs1)"
        using worlds(2) [OF False Inl] tr3 by simp
      moreover have "\<forall>e \<in> set (jevs @ evs1). \<not> is_drop_or_jitter e"
        using jevs evs1 by (auto dest: sleep_is_no_decision)
      ultimately show ?thesis by blast
    next
      case (Inr b)
      show ?thesis
      proof (cases ?dup)
        case nodup: False
        have "trace (snd (main_cycle env s w)) =
            trace w @ PacketDropDecision False # JitterDecision ?j
              # (jevs @ evs1 @ [DuplicateDecision False, Sleep TELEMETRY_INTERVAL_SECONDS])"
          using worlds(3) [OF False Inr nodup] tr3 nodup by (simp add: time_sleep_def)
        moreover have "\<forall>e \<in> set (jevs @ evs1
            @ [DuplicateDecision False, Sleep TELEMETRY_INTERVAL_SECONDS]). \<not> is_drop_or_jitter e"
          using jevs evs1 by (auto dest: sleep_is_no_decision)
        ultimately show ?thesis by blast
      next
        case isdup: True
        show ?thesis
        proof (cases r2)
          case (Inl e)
          have "trace (snd (main_cycle env s w)) =
              trace w @ PacketDropDecision False # JitterDecision ?j
                # (jevs @ evs1 @ DuplicateDecision True # Sleep (1 / 2) # evs2)"
            using worlds(4) [OF False Inr isdup Inl] tr3 tr5 isdup by simp
          moreover have "\<forall>e \<in> set (jevs @ evs1 @ DuplicateDecision True # Sleep (1 / 2) # evs2).
              \<not> is_drop_or_jitter e"
            using jevs evs1 evs2 by (auto dest: sleep_is_no_decision)
          ultimately show ?thesis by blast
        next
          case inr2: (Inr b2)
          have "trace (snd (main_cycle env s w)) =
              trace w @ PacketDropDecision False # JitterDecision ?j
                # (jevs @ evs1 @ DuplicateDecision True # Sleep (1 / 2) # evs2
                   @ [Sleep TELEMETRY_INTERVAL_SECONDS])"
            using worlds(5) [OF False Inr isdup inr2] tr3 tr5 isdup by (simp add: time_sleep_def)
          moreover have "\<forall>e \<in> set (jevs @ evs1 @ DuplicateDecision True # Sleep (1 / 2) # evs2
              @ [Sleep TELEMETRY_INTERVAL_SECONDS]). \<not> is_drop_or_jitter e"
            using jevs evs1 evs2 by (auto dest: sleep_is_no_decision)
          ultimately show ?thesis by blast
        qed
      qed
    qed
    then obtain rest' where "trace (snd (main_cycle env s w)) =
          trace w @ PacketDropDecision False # JitterDecision ?j # rest'"
      and none: "\<forall>e \<in> set rest'. \<not> is_drop_or_jitter e"
      by blast
    then have "events_since w (snd (main_cycle env s w)) =
        PacketDropDecision False # JitterDecision ?j # rest'"
      by (simp add: events_since_def)
    then show ?thesis using none by blast
  qed
qed

text \<open>Evaluating the device on given inputs.\<close>

lemmas device_eval =
  main_cycle_def generate_telemetry_def simulate_packet_drop_def simulate_jitter_def
  simulate_duplicate_def send_with_retry_def send_loop.simps send_attempt_def
  backoff_or_give_up_def calculate_backoff_def requests_post_def random_uniform_def
  random_random_def time_sleep_def emit_def is_transient_error_def round2_def pow2_def
  example_env_def example_telemetry_def world_init_def
  DEVICE_ID_def TELEMETRY_INTERVAL_SECONDS_def PACKET_DROP_PROBABILITY_def JITTER_PROBABILITY_def
  MAX_JITTER_SECONDS_def DUPLICATE_PROBABILITY_def MAX_RETRIES_def BASE_BACKOFF_SECONDS_def
  MAX_BACKOFF_SECONDS_def BACKOFF_JITTER_RANGE_def

text \<open>
  Claim C7, as the code has it. \<^verbatim>\<open>send_with_retry\<close> makes no fault decision: all it adds
  to the trace are transmissions of its message and sleeps. The drop decision and the delay
  decision are made by \<^verbatim>\<open>main\<close>, once in each pass of its loop and before the first
  transmission: a pass starts with the drop decision; when it drops, only the sleep of the
  telemetry interval follows; when it does not, the delay decision comes next and no drop or
  delay decision follows it in that pass.
\<close>

theorem fault_decisions_once_per_cycle:
  "(\<exists>evs. trace (snd (send_with_retry env t w)) = trace w @ evs
          \<and> (\<forall>e \<in> set evs. e = Post t \<or> is_Sleep e))
   \<and> (\<exists>d rest. events_since w (snd (main_cycle env s w)) = PacketDropDecision d # rest
        \<and> (d \<longrightarrow> rest = [Sleep TELEMETRY_INTERVAL_SECONDS])
        \<and> (\<not> d \<longrightarrow> (\<exists>j rest'. rest = JitterDecision j # rest'
                        \<and> (\<forall>e \<in> set rest'. \<not> is_drop_or_jitter e))))"
  using send_with_retry_trace [of env t w] main_cycle_events [of w env s] by blast

text \<open>
  A pass whose first transmission gets a 503 and whose second gets a 200, and a pass that
  drops the packet.
\<close>

theorem fault_decisions_once_per_cycle_witness:
  "trace (snd (send_with_retry
          (example_env (\<lambda>n. 1 / 2)
             (\<lambda>n. if n = 0 then Response 503 JsonObject else Response 200 JsonObject))
          (example_telemetry 0) world_init)) =
     [Post (example_telemetry 0), Sleep 1, Post (example_telemetry 0)]
   \<and> events_since world_init (snd (main_cycle
          (example_env (\<lambda>n. 1 / 2)
             (\<lambda>n. if n = 0 then Response 503 JsonObject else Response 200 JsonObject))
          0 world_init)) =
     PacketDropDecision False # JitterDecision False #
       [Post (example_telemetry 0), Sleep 1, Post (example_telemetry 0),
        DuplicateDecision False, Sleep 3]
   \<and> events_since world_init (snd (main_cycle
          (example_env (\<lambda>n. 1 / 20) (\<lambda>n. Response 200 JsonObject)) 0 world_init)) =
     PacketDropDecision True # [Sleep TELEMETRY_INTERVAL_SECONDS]"
  using fault_decisions_once_per_cycle [where w=world_init and s=0 and t="example_telemetry 0"
      and env="example_env (\<lambda>n. 1 / 2)
             (\<lambda>n. if n = 0 then Response 503 JsonObject else Response 200 JsonObject)"]
    fault_decisions_once_per_cycle [where w=world_init and s=0 and t="example_telemetry 0"
      and env="example_env (\<lambda>n. 1 / 20) (\<lambda>n. Response 200 JsonObject)"]
  by (simp add: device_eval events_since_def)

text \<open>
  Claim C7 as stated fails: after the 503 the loop sleeps for the backoff and transmits
  again, and no drop or delay decision is made before the second transmission.
\<close>

theorem retry_without_fault_decisions:
  "trace (snd (main_cycle
          (example_env (\<lambda>n. 1 / 2)
             (\<lambda>n. if n = 0 then Response 503 JsonObject else Response 200 JsonObject))
          0 world_init)) =
     [PacketDropDecision False, JitterDecision False, Post (example_telemetry 0), Sleep 1,
      Post (example_telemetry 0), DuplicateDecision False, Sleep 3]
   \<and> \<not> decisions_before_each_post 0
         (trace (snd (main_cycle
            (example_env (\<lambda>n. 1 / 2)
               (\<lambda>n. if n = 0 then Response 503 JsonObject else Response 200 JsonObject))
            0 world_init)))"
  by (simp add: device_eval)




end
